theory Spec2Isabelle
  imports Complex_Main
begin

section \<open>The Monte Carlo M/M/c simulation engine (src/lib/simulation.ts)\<close>

text \<open>
  A shallow embedding of \<^verbatim>\<open>src/lib/simulation.ts\<close>: the random-draw run
  \<^verbatim>\<open>runSimulation\<close>, the dataset adapter \<^verbatim>\<open>parseCSV\<close>, the dataset run
  \<^verbatim>\<open>runSimulationFromDataset\<close> and the aggregator \<^verbatim>\<open>computeResults\<close>.
\<close>

subsection \<open>JavaScript numbers\<close>

text \<open>
  A JavaScript \<^verbatim>\<open>number\<close> is an IEEE double. The embedding keeps the three special
  values (\<^verbatim>\<open>NaN\<close>, \<^verbatim>\<open>Infinity\<close>, \<^verbatim>\<open>-Infinity\<close>) with their arithmetic, and takes
  the arithmetic of finite numbers to be exact: a sum, product or quotient of finite
  numbers is the real result, never rounded and never an infinity by overflow, and there
  is one zero (a zero divisor counts as \<^verbatim>\<open>+0\<close>). Where an overflow in the source
  would decide a statement about a run, the statement is made under a hypothesis on what
  the run computes (an arrival time that is finite, a total that is not \<^verbatim>\<open>Infinity\<close>)
  and not on the finiteness of the input alone, and a rate is taken \<open>> 0\<close> where the sign
  of a zero rate would matter. The summary of the aggregator is stated for exact sums.
\<close>

datatype number = NaN | NegInf | Fin real | PosInf

text \<open>Unary minus.\<close>

fun num_neg :: "number \<Rightarrow> number" where
  "num_neg NaN = NaN"
| "num_neg NegInf = PosInf"
| "num_neg (Fin x) = Fin (- x)"
| "num_neg PosInf = NegInf"

text \<open>\<^verbatim>\<open>a + b\<close>: \<^verbatim>\<open>Infinity + -Infinity\<close> is \<^verbatim>\<open>NaN\<close>.\<close>

fun num_add :: "number \<Rightarrow> number \<Rightarrow> number" where
  "num_add NaN b = NaN"
| "num_add NegInf b = (case b of NaN \<Rightarrow> NaN | PosInf \<Rightarrow> NaN | _ \<Rightarrow> NegInf)"
| "num_add (Fin x) b = (case b of Fin y \<Rightarrow> Fin (x + y) | _ \<Rightarrow> b)"
| "num_add PosInf b = (case b of NaN \<Rightarrow> NaN | NegInf \<Rightarrow> NaN | _ \<Rightarrow> PosInf)"

text \<open>\<^verbatim>\<open>a - b\<close>.\<close>

definition num_sub :: "number \<Rightarrow> number \<Rightarrow> number" where
  "num_sub a b = num_add a (num_neg b)"

text \<open>The infinity of the given sign (\<open>True\<close> for positive).\<close>

definition signed_inf :: "bool \<Rightarrow> number" where
  "signed_inf pos = (if pos then PosInf else NegInf)"

text \<open>\<^verbatim>\<open>a * b\<close>: \<^verbatim>\<open>Infinity * 0\<close> is \<^verbatim>\<open>NaN\<close>.\<close>

fun num_mul :: "number \<Rightarrow> number \<Rightarrow> number" where
  "num_mul NaN b = NaN"
| "num_mul NegInf b =
     (case b of NaN \<Rightarrow> NaN | NegInf \<Rightarrow> PosInf | PosInf \<Rightarrow> NegInf
      | Fin y \<Rightarrow> if y = 0 then NaN else signed_inf (y < 0))"
| "num_mul (Fin x) b =
     (case b of NaN \<Rightarrow> NaN | Fin y \<Rightarrow> Fin (x * y)
      | NegInf \<Rightarrow> if x = 0 then NaN else signed_inf (x < 0)
      | PosInf \<Rightarrow> if x = 0 then NaN else signed_inf (0 < x))"
| "num_mul PosInf b =
     (case b of NaN \<Rightarrow> NaN | NegInf \<Rightarrow> NegInf | PosInf \<Rightarrow> PosInf
      | Fin y \<Rightarrow> if y = 0 then NaN else signed_inf (0 < y))"

text \<open>
  \<^verbatim>\<open>a / b\<close>: a non-zero finite number over zero is an infinity, \<^verbatim>\<open>0 / 0\<close> and
  \<^verbatim>\<open>Infinity / Infinity\<close> are \<^verbatim>\<open>NaN\<close>, a finite number over an infinity is zero.
\<close>

fun num_div :: "number \<Rightarrow> number \<Rightarrow> number" where
  "num_div NaN b = NaN"
| "num_div NegInf b = (case b of Fin y \<Rightarrow> signed_inf (y < 0) | _ \<Rightarrow> NaN)"
| "num_div (Fin x) b =
     (case b of NaN \<Rightarrow> NaN | NegInf \<Rightarrow> Fin 0 | PosInf \<Rightarrow> Fin 0
      | Fin y \<Rightarrow> if y = 0 then (if x = 0 then NaN else signed_inf (0 < x)) else Fin (x / y))"
| "num_div PosInf b = (case b of Fin y \<Rightarrow> signed_inf (0 \<le> y) | _ \<Rightarrow> NaN)"

text \<open>\<^verbatim>\<open>a < b\<close>, \<^verbatim>\<open>a > b\<close>, \<^verbatim>\<open>a >= b\<close>: every comparison with \<^verbatim>\<open>NaN\<close> is false.\<close>

fun num_lt :: "number \<Rightarrow> number \<Rightarrow> bool" where
  "num_lt NaN b = False"
| "num_lt NegInf b = (case b of NaN \<Rightarrow> False | NegInf \<Rightarrow> False | _ \<Rightarrow> True)"
| "num_lt (Fin x) b = (case b of Fin y \<Rightarrow> x < y | PosInf \<Rightarrow> True | _ \<Rightarrow> False)"
| "num_lt PosInf b = False"

definition num_gt :: "number \<Rightarrow> number \<Rightarrow> bool" where
  "num_gt a b = num_lt b a"

text \<open>\<^verbatim>\<open>a === b\<close> on numbers: \<^verbatim>\<open>NaN\<close> equals nothing.\<close>

definition num_eq :: "number \<Rightarrow> number \<Rightarrow> bool" where
  "num_eq a b = (a \<noteq> NaN \<and> a = b)"

definition num_ge :: "number \<Rightarrow> number \<Rightarrow> bool" where
  "num_ge a b = (num_lt b a \<or> num_eq a b)"

text \<open>\<^verbatim>\<open>isNaN(x)\<close>.\<close>

definition isNaN :: "number \<Rightarrow> bool" where
  "isNaN x = (x = NaN)"

text \<open>\<^verbatim>\<open>Math.max(a, b)\<close> and \<^verbatim>\<open>Math.min(a, b)\<close>: \<^verbatim>\<open>NaN\<close> if an argument is.\<close>

definition Math_max2 :: "number \<Rightarrow> number \<Rightarrow> number" where
  "Math_max2 a b = (if a = NaN \<or> b = NaN then NaN else if num_lt a b then b else a)"

definition Math_min2 :: "number \<Rightarrow> number \<Rightarrow> number" where
  "Math_min2 a b = (if a = NaN \<or> b = NaN then NaN else if num_lt b a then b else a)"

text \<open>
  \<^verbatim>\<open>Math.min(...xs)\<close> and \<^verbatim>\<open>Math.max(...xs)\<close> on a spread array: with no argument
  they are \<^verbatim>\<open>Infinity\<close> and \<^verbatim>\<open>-Infinity\<close>. An engine bounds the number of arguments
  of one call and raises \<^verbatim>\<open>RangeError\<close> on a longer spread; that bound belongs to the
  engine and its stack, not to the language, and the embedding has none. So a run on a
  very large server array or entity list returns here where an engine may raise, and the
  statements below about a run that returns are about the runs that do.
\<close>

definition Math_min :: "number list \<Rightarrow> number" where
  "Math_min xs = foldl Math_min2 PosInf xs"

definition Math_max :: "number list \<Rightarrow> number" where
  "Math_max xs = foldl Math_max2 NegInf xs"

text \<open>\<^verbatim>\<open>Math.log(x)\<close>.\<close>

fun Math_log :: "number \<Rightarrow> number" where
  "Math_log NaN = NaN"
| "Math_log NegInf = NaN"
| "Math_log (Fin x) = (if x < 0 then NaN else if x = 0 then NegInf else Fin (ln x))"
| "Math_log PosInf = PosInf"

subsection \<open>The server array\<close>

text \<open>
  \<^verbatim>\<open>serverFinishTimes\<close> is a JavaScript array of numbers. The source indexes it with
  the result of \<^verbatim>\<open>indexOf\<close>, which is an index below the length or \<^verbatim>\<open>-1\<close>; an
  assignment at \<^verbatim>\<open>-1\<close> does not touch the elements, it creates the property
  \<^verbatim>\<open>"-1"\<close> of the array object, kept here in \<open>minus_one\<close>. A read that finds nothing is
  \<^verbatim>\<open>undefined\<close> (\<open>None\<close>).
\<close>

record js_array =
  elems :: "number list"
  minus_one :: "number option"

datatype error = RangeError

text \<open>
  \<^verbatim>\<open>new Array(n).fill(0)\<close>: a number that is not an integer in \<open>0 .. 2^32 - 1\<close>
  raises \<^verbatim>\<open>RangeError: Invalid array length\<close>. (The memory an engine has for a large
  array is not modelled.)
\<close>

definition valid_array_length :: "number \<Rightarrow> bool" where
  "valid_array_length n =
     (case n of Fin x \<Rightarrow> x = of_int \<lfloor>x\<rfloor> \<and> 0 \<le> x \<and> x < 2 ^ 32 | _ \<Rightarrow> False)"

definition new_Array_fill0 :: "number \<Rightarrow> error + js_array" where
  "new_Array_fill0 n =
     (case n of
        Fin x \<Rightarrow>
          if valid_array_length n
          then Inr \<lparr> elems = replicate (nat \<lfloor>x\<rfloor>) (Fin 0), minus_one = None \<rparr>
          else Inl RangeError
      | _ \<Rightarrow> Inl RangeError)"

text \<open>\<^verbatim>\<open>xs.indexOf(v)\<close>: the first index whose element is strictly equal to \<open>v\<close>, or \<open>-1\<close>.\<close>

fun indexOf_from :: "number list \<Rightarrow> number \<Rightarrow> int \<Rightarrow> int" where
  "indexOf_from [] v k = - 1"
| "indexOf_from (x # xs) v k = (if num_eq x v then k else indexOf_from xs v (k + 1))"

definition indexOf :: "number list \<Rightarrow> number \<Rightarrow> int" where
  "indexOf xs v = indexOf_from xs v 0"

text \<open>\<^verbatim>\<open>arr[i]\<close> as a read and \<^verbatim>\<open>arr[i] = v\<close>, for \<open>i\<close> an index or \<open>-1\<close>.\<close>

definition array_get :: "js_array \<Rightarrow> int \<Rightarrow> number option" where
  "array_get arr i =
     (if 0 \<le> i \<and> i < int (length (elems arr)) then Some (elems arr ! nat i)
      else if i = - 1 then minus_one arr
      else None)"

definition array_set :: "js_array \<Rightarrow> int \<Rightarrow> number \<Rightarrow> js_array" where
  "array_set arr i v =
     (if 0 \<le> i \<and> i < int (length (elems arr)) then arr \<lparr> elems := (elems arr)[nat i := v] \<rparr>
      else if i = - 1 then arr \<lparr> minus_one := Some v \<rparr>
      else arr)"

text \<open>\<^verbatim>\<open>ToNumber\<close> of a value that is a number or \<^verbatim>\<open>undefined\<close>.\<close>

definition to_number :: "number option \<Rightarrow> number" where
  "to_number v = (case v of None \<Rightarrow> NaN | Some x \<Rightarrow> x)"

subsection \<open>Data model\<close>

record SimulationParams =
  arrivalRate :: number
  serviceRate :: number
  numServers :: number
  duration :: number

record DatasetRow =
  interArrivalTime :: number
  serviceTime :: number

record CustomerRecord =
  id_c :: nat
  randomIAT :: number
  randomST :: number
  interArrivalTime :: number
  arrivalTime :: number
  serviceTime :: number
  waitTime :: number
  startServiceTime :: number
  endServiceTime :: number
  serverAssigned :: int

record SimulationResult =
  customers :: "CustomerRecord list"
  avgWaitTime :: number
  maxWaitTime :: number
  avgQueueLength :: number
  serverUtilization :: number
  totalCustomers :: nat
  customersServed :: nat

subsection \<open>The aggregator\<close>

text \<open>\<^verbatim>\<open>computeResults\<close> (lines 179-213).\<close>

definition computeResults ::
  "CustomerRecord list \<Rightarrow> number \<Rightarrow> number \<Rightarrow> number \<Rightarrow> SimulationResult" where
  "computeResults cs numServers' duration' arrivalRate' =
     (let totalCustomers' = length cs in
      if totalCustomers' = 0 then
        \<lparr> customers = [], avgWaitTime = Fin 0, maxWaitTime = Fin 0, avgQueueLength = Fin 0,
          serverUtilization = Fin 0, totalCustomers = 0, customersServed = 0 \<rparr>
      else
        let avgWaitTime' =
              num_div (foldl (\<lambda>sum c. num_add sum (waitTime c)) (Fin 0) cs)
                      (Fin (real totalCustomers'));
            maxWaitTime' = Math_max (map waitTime cs);
            totalServiceTime = foldl (\<lambda>sum c. num_add sum (serviceTime c)) (Fin 0) cs;
            serverUtilization' =
              (if num_gt duration' (Fin 0)
               then num_mul (num_div totalServiceTime (num_mul numServers' duration')) (Fin 100)
               else Fin 0);
            avgQueueLength' = num_mul arrivalRate' avgWaitTime'
        in \<lparr> customers = cs, avgWaitTime = avgWaitTime', maxWaitTime = maxWaitTime',
             avgQueueLength = avgQueueLength',
             serverUtilization = Math_min2 serverUtilization' (Fin 100),
             totalCustomers = totalCustomers', customersServed = totalCustomers' \<rparr>)"

subsection \<open>Server assignment\<close>

text \<open>
  The block both runs execute for each entity (lines 70-79 of \<^verbatim>\<open>runSimulation\<close>, the
  same text at lines 149-156 of \<^verbatim>\<open>runSimulationFromDataset\<close>): from the server
  array, the arrival time and the service time it gives \<^verbatim>\<open>serverIndex\<close>,
  \<^verbatim>\<open>startServiceTime\<close>, \<^verbatim>\<open>waitTime\<close>, \<^verbatim>\<open>endServiceTime\<close> and the updated array.
\<close>

definition assign_server ::
  "js_array \<Rightarrow> number \<Rightarrow> number \<Rightarrow> int \<times> number \<times> number \<times> number \<times> js_array" where
  "assign_server serverFinishTimes currentTime st =
     (let earliestFinish = Math_min (elems serverFinishTimes);
          serverIndex = indexOf (elems serverFinishTimes) earliestFinish;
          startServiceTime' =
            Math_max2 currentTime (to_number (array_get serverFinishTimes serverIndex));
          waitTime' = num_sub startServiceTime' currentTime;
          endServiceTime' = num_add startServiceTime' st
      in (serverIndex, startServiceTime', waitTime', endServiceTime',
          array_set serverFinishTimes serverIndex endServiceTime'))"

subsection \<open>The random-draw run\<close>

text \<open>
  \<^verbatim>\<open>exponentialRandom\<close> (lines 38-42). \<^verbatim>\<open>Math.random()\<close> is the only effect of the
  source; the run takes the draws it will return as a list \<open>R\<close> of reals, one consumed
  per call. The result is the pair \<^verbatim>\<open>{random, value}\<close>.
\<close>

definition exponentialRandom :: "number \<Rightarrow> real \<Rightarrow> number \<times> number" where
  "exponentialRandom rate R = (Fin R, num_div (num_neg (Math_log (Fin R))) rate)"

text \<open>
  The \<^verbatim>\<open>while\<close> loop of \<^verbatim>\<open>runSimulation\<close> (lines 56-93). The loop has no bound of
  its own: it ends when the clock reaches the horizon. The list of draws is its fuel,
  and a run that asks for a draw when none is left is \<open>None\<close>.
\<close>

function runSimulation_loop ::
  "SimulationParams \<Rightarrow> real list \<Rightarrow> js_array \<Rightarrow> number \<Rightarrow> nat \<Rightarrow> CustomerRecord list
     \<Rightarrow> CustomerRecord list option" where
  "runSimulation_loop p draws serverFinishTimes currentTime customerId cs =
     (if num_lt currentTime (duration p) then
        (case draws of
           [] \<Rightarrow> None
         | R1 # draws1 \<Rightarrow>
             let customerId1 = customerId + 1;
                 iat = exponentialRandom (arrivalRate p) R1;
                 interArrivalTime' = (if customerId1 = 1 then Fin 0 else snd iat);
                 currentTime1 = num_add currentTime interArrivalTime'
             in if num_ge currentTime1 (duration p) then Some cs
                else
                  (case draws1 of
                     [] \<Rightarrow> None
                   | R2 # draws2 \<Rightarrow>
                       let st = exponentialRandom (serviceRate p) R2 in
                       (case assign_server serverFinishTimes currentTime1 (snd st) of
                          (serverIndex, startServiceTime', waitTime', endServiceTime', sft) \<Rightarrow>
                            runSimulation_loop p draws2 sft currentTime1 customerId1
                              (cs @ [\<lparr> id_c = customerId1, randomIAT = fst iat,
                                       randomST = fst st,
                                       interArrivalTime =
                                         (if customerId1 = 1 then Fin 0 else interArrivalTime'),
                                       arrivalTime = currentTime1, serviceTime = snd st,
                                       waitTime = waitTime',
                                       startServiceTime = startServiceTime',
                                       endServiceTime = endServiceTime',
                                       serverAssigned = serverIndex + 1 \<rparr>]))))
      else Some cs)"
  by pat_completeness auto
termination
  by (relation "measure (\<lambda>(p, draws, sft, t, n, cs). length draws)") auto

declare runSimulation_loop.simps [simp del]

text \<open>\<^verbatim>\<open>runSimulation\<close> (lines 47-96).\<close>

definition runSimulation ::
  "SimulationParams \<Rightarrow> real list \<Rightarrow> (error + SimulationResult) option" where
  "runSimulation p draws =
     (case new_Array_fill0 (numServers p) of
        Inl e \<Rightarrow> Some (Inl e)
      | Inr serverFinishTimes \<Rightarrow>
          (case runSimulation_loop p draws serverFinishTimes (Fin 0) 0 [] of
             None \<Rightarrow> None
           | Some cs \<Rightarrow>
               Some (Inr (computeResults cs (numServers p) (duration p) (arrivalRate p)))))"

subsection \<open>The dataset run\<close>

text \<open>
  The \<^verbatim>\<open>for\<close> loop of \<^verbatim>\<open>runSimulationFromDataset\<close> (lines 144-170), on the rows
  from index \<open>i\<close> on.
\<close>

fun runSimulationFromDataset_loop ::
  "DatasetRow list \<Rightarrow> nat \<Rightarrow> js_array \<Rightarrow> number \<Rightarrow> CustomerRecord list \<Rightarrow> CustomerRecord list"
  where
  "runSimulationFromDataset_loop [] i serverFinishTimes currentTime cs = cs"
| "runSimulationFromDataset_loop (row # rest) i serverFinishTimes currentTime cs =
     (let interArrivalTime' = (if i = 0 then Fin 0 else DatasetRow.interArrivalTime row);
          currentTime1 = num_add currentTime interArrivalTime'
      in case assign_server serverFinishTimes currentTime1 (DatasetRow.serviceTime row) of
           (serverIndex, startServiceTime', waitTime', endServiceTime', sft) \<Rightarrow>
             runSimulationFromDataset_loop rest (i + 1) sft currentTime1
               (cs @ [\<lparr> id_c = i + 1, randomIAT = Fin 0, randomST = Fin 0,
                        interArrivalTime = interArrivalTime',
                        arrivalTime = currentTime1,
                        serviceTime = DatasetRow.serviceTime row,
                        waitTime = waitTime',
                        startServiceTime = startServiceTime',
                        endServiceTime = endServiceTime',
                        serverAssigned = serverIndex + 1 \<rparr>]))"

text \<open>\<^verbatim>\<open>runSimulationFromDataset\<close> (lines 136-177).\<close>

definition runSimulationFromDataset ::
  "DatasetRow list \<Rightarrow> number \<Rightarrow> error + SimulationResult" where
  "runSimulationFromDataset dataset numServers' =
     (case new_Array_fill0 numServers' of
        Inl e \<Rightarrow> Inl e
      | Inr serverFinishTimes \<Rightarrow>
          let cs = runSimulationFromDataset_loop dataset 0 serverFinishTimes (Fin 0) [];
              duration' = (if length cs > 0 then endServiceTime (last cs) else Fin 0);
              avgIAT =
                num_div (foldl (\<lambda>s r. num_add s (DatasetRow.interArrivalTime r)) (Fin 0) dataset)
                        (Fin (real (length dataset)));
              arrivalRate' = (if num_gt avgIAT (Fin 0) then num_div (Fin 1) avgIAT else Fin 1)
          in Inr (computeResults cs numServers' duration' arrivalRate'))"

subsection \<open>The dataset adapter\<close>

text \<open>
  A string is the list of its code units, and the embedding holds the strings whose code
  units are below 256 (Latin-1): a \<open>char\<close> is the code unit of that number. The white
  space that \<^verbatim>\<open>trim\<close> and \<^verbatim>\<open>parseFloat\<close> strip is, in this range: tab, line feed,
  vertical tab, form feed, carriage return, space and the no-break space U+00A0. (The
  other white space of JavaScript, U+FEFF and the Unicode space separators, is above 255
  and not in the type.)
\<close>

definition is_whitespace :: "char \<Rightarrow> bool" where
  "is_whitespace c =
     (c \<in> {CHR '' '', CHR 0x09, CHR 0x0A, CHR 0x0B, CHR 0x0C, CHR 0x0D, CHR 0xA0})"

text \<open>\<^verbatim>\<open>s.trim()\<close>.\<close>

definition trim :: "string \<Rightarrow> string" where
  "trim s = rev (dropWhile is_whitespace (rev (dropWhile is_whitespace s)))"

text \<open>
  \<^verbatim>\<open>s.split(/\r?\n/)\<close>: a line ends at a line feed, which takes a carriage return
  right before it along. The result is never empty.
\<close>

fun split_lines :: "string \<Rightarrow> string list" where
  "split_lines [] = [[]]"
| "split_lines (c # cs) =
     (if c = CHR 0x0A then [] # split_lines cs
      else if c = CHR 0x0D \<and> cs \<noteq> [] \<and> hd cs = CHR 0x0A then [] # split_lines (tl cs)
      else (case split_lines cs of l # ls \<Rightarrow> (c # l) # ls | [] \<Rightarrow> [[c]]))"

text \<open>\<^verbatim>\<open>s.split(/[,;\t]/)\<close>.\<close>

fun split_cells :: "string \<Rightarrow> string list" where
  "split_cells [] = [[]]"
| "split_cells (c # cs) =
     (if c = CHR '','' \<or> c = CHR '';'' \<or> c = CHR 0x09 then [] # split_cells cs
      else (case split_cells cs of l # ls \<Rightarrow> (c # l) # ls | [] \<Rightarrow> [[c]]))"

text \<open>
  \<^verbatim>\<open>s.toLowerCase()\<close> on code units below 256: the letters \<open>A .. Z\<close> and the Latin-1
  capitals U+00C0 .. U+00DE (but not the sign U+00D7) move up by 32.
\<close>

definition lower_char :: "char \<Rightarrow> char" where
  "lower_char c =
     (if ((65::nat) \<le> of_char c \<and> of_char c \<le> (90::nat)) \<or>
         ((192::nat) \<le> of_char c \<and> of_char c \<le> (222::nat) \<and> of_char c \<noteq> (215::nat))
      then char_of (of_char c + (32::nat)) else c)"

definition toLowerCase :: "string \<Rightarrow> string" where
  "toLowerCase s = map lower_char s"

text \<open>\<^verbatim>\<open>s.includes(pat)\<close>: \<open>pat\<close> occurs in \<open>s\<close>.\<close>

fun includes_str :: "string \<Rightarrow> string \<Rightarrow> bool" where
  "includes_str [] pat = (pat = [])"
| "includes_str (c # cs) pat = (take (length pat) (c # cs) = pat \<or> includes_str cs pat)"

text \<open>\<^verbatim>\<open>xs.findIndex(P)\<close>: the first index whose element satisfies \<open>P\<close>, or \<open>-1\<close>.\<close>

fun findIndex_from :: "('a \<Rightarrow> bool) \<Rightarrow> 'a list \<Rightarrow> int \<Rightarrow> int" where
  "findIndex_from P [] k = - 1"
| "findIndex_from P (x # xs) k = (if P x then k else findIndex_from P xs (k + 1))"

definition findIndex :: "('a \<Rightarrow> bool) \<Rightarrow> 'a list \<Rightarrow> int" where
  "findIndex P xs = findIndex_from P xs 0"

text \<open>
  \<^verbatim>\<open>parseFloat\<close>: after leading white space, the longest prefix that is a decimal
  literal (a sign, then \<^verbatim>\<open>Infinity\<close> or digits with an optional fraction and an
  optional exponent); \<^verbatim>\<open>NaN\<close> when there is none. The literal's value is brought into
  the range of the doubles by \<open>number_of_literal\<close>: a magnitude of \<open>2^1024 - 2^970\<close> or more
  rounds to an infinity, a magnitude of \<open>2^-1075\<close> or less rounds to zero, and in between
  the value is kept exact (the rounding of the mantissa is not modelled). An absent cell
  is \<^verbatim>\<open>undefined\<close>, which \<^verbatim>\<open>parseFloat\<close> reads as the string \<^verbatim>\<open>"undefined"\<close>, so as
  \<^verbatim>\<open>NaN\<close>.
\<close>

definition number_of_literal :: "real \<Rightarrow> number" where
  "number_of_literal v =
     (if 2 ^ 1024 - 2 ^ 970 \<le> \<bar>v\<bar> then signed_inf (0 < v)
      else if \<bar>v\<bar> \<le> 1 / 2 ^ 1075 then Fin 0
      else Fin v)"

definition is_digit :: "char \<Rightarrow> bool" where
  "is_digit c = ((48::nat) \<le> of_char c \<and> of_char c \<le> (57::nat))"

definition digits_value :: "string \<Rightarrow> nat" where
  "digits_value ds = foldl (\<lambda>n c. 10 * n + (of_char c - 48)) 0 ds"

definition exponent_part :: "string \<Rightarrow> int" where
  "exponent_part r =
     (case r of
        [] \<Rightarrow> 0
      | c # r1 \<Rightarrow>
          if c = CHR ''e'' \<or> c = CHR ''E'' then
            (case r1 of
               [] \<Rightarrow> 0
             | d # r2 \<Rightarrow>
                 if d = CHR ''+'' then
                   (if takeWhile is_digit r2 = [] then 0 else int (digits_value (takeWhile is_digit r2)))
                 else if d = CHR ''-'' then
                   (if takeWhile is_digit r2 = [] then 0 else - int (digits_value (takeWhile is_digit r2)))
                 else
                   (if takeWhile is_digit r1 = [] then 0 else int (digits_value (takeWhile is_digit r1))))
          else 0)"

definition parseFloat_string :: "string \<Rightarrow> number" where
  "parseFloat_string s =
     (let t = dropWhile is_whitespace s;
          neg = (t \<noteq> [] \<and> hd t = CHR ''-'');
          u = (if t \<noteq> [] \<and> (hd t = CHR ''-'' \<or> hd t = CHR ''+'') then tl t else t)
      in if take 8 u = ''Infinity'' then (if neg then NegInf else PosInf)
         else
           let ip = takeWhile is_digit u;
               r1 = dropWhile is_digit u;
               dot = (r1 \<noteq> [] \<and> hd r1 = CHR ''.'');
               fp = (if dot then takeWhile is_digit (tl r1) else []);
               r2 = (if dot then dropWhile is_digit (tl r1) else r1)
           in if ip = [] \<and> fp = [] then NaN
              else
                let e = exponent_part r2;
                    m = real (digits_value ip) + real (digits_value fp) / 10 ^ length fp;
                    v = (if 0 \<le> e then m * 10 ^ nat e else m / 10 ^ nat (- e))
                in number_of_literal (if neg then - v else v))"

definition parseFloat :: "string option \<Rightarrow> number" where
  "parseFloat v = (case v of None \<Rightarrow> NaN | Some s \<Rightarrow> parseFloat_string s)"

text \<open>\<^verbatim>\<open>cols[i]\<close> on the array of cells: \<^verbatim>\<open>undefined\<close> out of range.\<close>

definition cell :: "string list \<Rightarrow> int \<Rightarrow> string option" where
  "cell cols i = (if 0 \<le> i \<and> i < int (length cols) then Some (cols ! nat i) else None)"

text \<open>The \<^verbatim>\<open>for\<close> loop of \<^verbatim>\<open>parseCSV\<close> (lines 122-129), on the data lines left.\<close>

fun parseCSV_loop :: "string list \<Rightarrow> int \<Rightarrow> int \<Rightarrow> DatasetRow list \<Rightarrow> DatasetRow list" where
  "parseCSV_loop [] iatCol stCol rows = rows"
| "parseCSV_loop (line # rest) iatCol stCol rows =
     (let cols = split_cells line;
          iat = parseFloat (cell cols iatCol);
          st = parseFloat (cell cols stCol)
      in parseCSV_loop rest iatCol stCol
           (if \<not> isNaN iat \<and> \<not> isNaN st \<and> num_ge iat (Fin 0) \<and> num_gt st (Fin 0)
            then rows @ [\<lparr> DatasetRow.interArrivalTime = iat, DatasetRow.serviceTime = st \<rparr>]
            else rows))"

text \<open>
  The column detection of \<^verbatim>\<open>parseCSV\<close> (lines 111-119), from the header line: the
  indices \<open>(iatCol, stCol)\<close>.
\<close>

definition detect_columns :: "string \<Rightarrow> int \<times> int" where
  "detect_columns header =
     (let headers = split_cells (toLowerCase header);
          iatCol0 = findIndex (\<lambda>h. includes_str h ''iat'' \<or> includes_str h ''inter_arrival''
                                    \<or> includes_str h ''interarrival''
                                    \<or> includes_str h ''inter-arrival'') headers;
          stCol0 = findIndex (\<lambda>h. includes_str h ''service'' \<or> includes_str h ''st''
                                   \<or> includes_str h ''duration'') headers;
          iatCol = (if iatCol0 = - 1 then 0 else iatCol0);
          stCol = (if stCol0 = - 1 then min 1 (int (length headers) - 1) else stCol0)
      in (iatCol, stCol))"

text \<open>
  \<^verbatim>\<open>parseCSV\<close> (lines 107-131). Nothing in it can throw: \<^verbatim>\<open>lines[0]\<close> exists, an
  absent cell is \<^verbatim>\<open>undefined\<close>, and \<^verbatim>\<open>parseFloat\<close> returns \<^verbatim>\<open>NaN\<close> on what it
  cannot read.
\<close>

definition parseCSV :: "string \<Rightarrow> DatasetRow list" where
  "parseCSV csvText =
     (let lines = split_lines (trim csvText) in
      if length lines < 2 then []
      else
        (case detect_columns (hd lines) of
           (iatCol, stCol) \<Rightarrow> parseCSV_loop (tl lines) iatCol stCol []))"

subsection \<open>Predicates of the properties\<close>

text \<open>A number that is \<^verbatim>\<open>>= 0\<close>: a non-negative real or \<^verbatim>\<open>Infinity\<close>.\<close>

definition nonneg :: "number \<Rightarrow> bool" where
  "nonneg x = (case x of Fin r \<Rightarrow> 0 \<le> r | PosInf \<Rightarrow> True | _ \<Rightarrow> False)"




text \<open>
  The invariant of a dataset run on finite rows of any sign: the server array holds \<open>c\<close>
  finite times, the clock is finite, every entity was given a server of \<open>1 .. c\<close> and a
  finite end of service.
\<close>

definition fin_inv :: "nat \<Rightarrow> js_array \<Rightarrow> number \<Rightarrow> CustomerRecord list \<Rightarrow> bool" where
  "fin_inv c sft t cs =
     ((\<exists>A. elems sft = map Fin A \<and> length A = c) \<and> (\<exists>\<tau>. t = Fin \<tau>) \<and>
      (\<forall>x\<in>set cs. 1 \<le> serverAssigned x \<and> serverAssigned x \<le> int c \<and>
                   (\<exists>e. endServiceTime x = Fin e)))"


text \<open>The summary of a run without entities.\<close>

definition zero_summary :: SimulationResult where
  "zero_summary =
     \<lparr> customers = [], avgWaitTime = Fin 0, maxWaitTime = Fin 0, avgQueueLength = Fin 0,
       serverUtilization = Fin 0, totalCustomers = 0, customersServed = 0 \<rparr>"

text \<open>
  A number that is not \<^verbatim>\<open>NaN\<close> and not the infinity of the wrong side: not
  \<^verbatim>\<open>-Infinity\<close> when \<open>up\<close>, not \<^verbatim>\<open>Infinity\<close> otherwise. The samples of a finite rate
  \<open>r\<close> are on the side \<open>0 \<le> r\<close>.
\<close>

definition sided :: "bool \<Rightarrow> number \<Rightarrow> bool" where
  "sided up x = (x \<noteq> NaN \<and> x \<noteq> (if up then NegInf else PosInf))"

text \<open>
  The invariant of a random-draw run with finite rates \<open>lam\<close> and \<open>mu\<close> of any sign: the
  array has \<open>c\<close> entries on the side of \<open>mu\<close>, the clock is neither \<^verbatim>\<open>NaN\<close> nor
  \<^verbatim>\<open>Infinity\<close> (nor \<^verbatim>\<open>-Infinity\<close> when \<open>lam \<ge> 0\<close>), and every entity was given a
  server of \<open>1 .. c\<close>.
\<close>

definition index_inv ::
  "nat \<Rightarrow> real \<Rightarrow> real \<Rightarrow> js_array \<Rightarrow> number \<Rightarrow> CustomerRecord list \<Rightarrow> bool" where
  "index_inv c lam mu sft t cs =
     (length (elems sft) = c \<and> (\<forall>x\<in>set (elems sft). sided (0 \<le> mu) x) \<and>
      t \<noteq> NaN \<and> t \<noteq> PosInf \<and> (0 \<le> lam \<longrightarrow> t \<noteq> NegInf) \<and>
      (\<forall>x\<in>set cs. 1 \<le> serverAssigned x \<and> serverAssigned x \<le> int c))"

text \<open>
  The same invariant of the output sequence when an arrival time may be \<^verbatim>\<open>Infinity\<close>:
  ids \<open>1 .. N\<close> in order, arrival times that do not decrease,
  \<open>endServiceTime = startServiceTime + serviceTime\<close>, and a wait that is \<open>\<ge> 0\<close> for an
  entity that arrived at a finite time and \<^verbatim>\<open>NaN\<close> (\<^verbatim>\<open>Infinity - Infinity\<close>) for one
  that arrived at \<^verbatim>\<open>Infinity\<close>.
\<close>

definition entity_wellformed :: "CustomerRecord \<Rightarrow> bool" where
  "entity_wellformed x =
     (endServiceTime x = num_add (startServiceTime x) (serviceTime x) \<and>
      (if arrivalTime x = PosInf then waitTime x = NaN else num_ge (waitTime x) (Fin 0)))"


text \<open>
  The loop invariant of a dataset run on rows that are \<open>\<ge> 0\<close>, \<^verbatim>\<open>Infinity\<close> included:
  the array has \<open>c\<close> entries and none is \<^verbatim>\<open>NaN\<close>, the clock is \<open>\<ge> 0\<close> and no entity
  arrived after it, the arrival times do not decrease, the ids are \<open>1 .. n\<close>, every entity
  is \<open>entity_wellformed\<close>, was given a server of \<open>1 .. c\<close> and has a service time \<open>\<ge> 0\<close>.
\<close>

definition wf_inv :: "nat \<Rightarrow> js_array \<Rightarrow> number \<Rightarrow> nat \<Rightarrow> CustomerRecord list \<Rightarrow> bool" where
  "wf_inv c sft t n cs =
     (length (elems sft) = c \<and> NaN \<notin> set (elems sft) \<and> nonneg t \<and>
      list_all (\<lambda>x. num_ge t (arrivalTime x)) cs \<and>
      sorted_wrt (\<lambda>x y. num_ge (arrivalTime y) (arrivalTime x)) cs \<and>
      map id_c cs = [1..<Suc n] \<and>
      list_all (\<lambda>x. entity_wellformed x \<and> 1 \<le> serverAssigned x \<and> serverAssigned x \<le> int c \<and>
                    nonneg (serviceTime x)) cs)"







text \<open>
  What \<^verbatim>\<open>parseFloat\<close> needs of a cell to return a number, stated on the text alone:
  after white space and an optional sign the cell begins with \<^verbatim>\<open>Infinity\<close>, with a
  digit, or with a dot and a digit. Whatever follows the literal is ignored.
\<close>

definition unsigned_part :: "string \<Rightarrow> string" where
  "unsigned_part s =
     (let t = dropWhile is_whitespace s
      in if t \<noteq> [] \<and> (hd t = CHR ''-'' \<or> hd t = CHR ''+'') then tl t else t)"

definition numeric_prefix :: "string \<Rightarrow> bool" where
  "numeric_prefix s =
     (let u = unsigned_part s
      in take 8 u = ''Infinity'' \<or> (u \<noteq> [] \<and> is_digit (hd u)) \<or>
         (u \<noteq> [] \<and> hd u = CHR ''.'' \<and> tl u \<noteq> [] \<and> is_digit (hd (tl u))))"

text \<open>The cell \<open>i\<close> of a line exists and begins with a number.\<close>

definition cell_numeric :: "string list \<Rightarrow> int \<Rightarrow> bool" where
  "cell_numeric cols i = (0 \<le> i \<and> i < int (length cols) \<and> numeric_prefix (cols ! nat i))"

text \<open>
  The pair that \<^verbatim>\<open>parseCSV\<close> reads in a data line, and the lines it accepts: both
  selected cells exist and begin with a number, the inter-arrival time read is \<open>\<ge> 0\<close> and
  the service time read is \<open>> 0\<close>.
\<close>

definition row_of :: "int \<Rightarrow> int \<Rightarrow> string \<Rightarrow> DatasetRow" where
  "row_of iatCol stCol line =
     \<lparr> DatasetRow.interArrivalTime = parseFloat (cell (split_cells line) iatCol),
       DatasetRow.serviceTime = parseFloat (cell (split_cells line) stCol) \<rparr>"

definition row_accepted :: "int \<Rightarrow> int \<Rightarrow> string \<Rightarrow> bool" where
  "row_accepted iatCol stCol line =
     (cell_numeric (split_cells line) iatCol \<and> cell_numeric (split_cells line) stCol \<and>
      num_ge (parseFloat (cell (split_cells line) iatCol)) (Fin 0) \<and>
      num_gt (parseFloat (cell (split_cells line) stCol)) (Fin 0))"

section \<open>Evaluation\<close>

text \<open>The equations that evaluate a run on concrete numbers.\<close>

lemmas num_defs = num_sub_def num_gt_def num_ge_def num_eq_def Math_max2_def Math_min2_def
  Math_min_def Math_max_def indexOf_def array_get_def array_set_def to_number_def signed_inf_def
  assign_server_def isNaN_def

lemmas csv_defs = parseCSV_def detect_columns_def trim_def is_whitespace_def toLowerCase_def
  lower_char_def findIndex_def is_digit_def digits_value_def exponent_part_def
  parseFloat_string_def number_of_literal_def
  parseFloat_def cell_def Let_def isNaN_def num_ge_def num_gt_def num_eq_def

lemma new_Array_fill0_1:
  "new_Array_fill0 (Fin 1) = Inr \<lparr> elems = [Fin 0], minus_one = None \<rparr>"
  by (simp add: new_Array_fill0_def valid_array_length_def)

lemma new_Array_fill0_2:
  "new_Array_fill0 (Fin 2) = Inr \<lparr> elems = [Fin 0, Fin 0], minus_one = None \<rparr>"
  by (simp add: new_Array_fill0_def valid_array_length_def numeral_2_eq_2)

lemma computeResults_counts:
  "customers (computeResults cs n d a) = cs \<and>
   totalCustomers (computeResults cs n d a) = length cs \<and>
   customersServed (computeResults cs n d a) = length cs"
  by (simp add: computeResults_def Let_def)

section \<open>Numbers, minimum and index search\<close>

lemma nonneg_iff_ge: "nonneg x \<longleftrightarrow> num_ge x (Fin 0)"
  by (cases x) (auto simp: nonneg_def num_ge_def num_eq_def)

lemma nonneg_simps [simp]:
  "nonneg (Fin r) = (0 \<le> r)" "nonneg PosInf" "\<not> nonneg NaN" "\<not> nonneg NegInf"
  by (simp_all add: nonneg_def)

lemma nonneg_add: "nonneg a \<Longrightarrow> nonneg b \<Longrightarrow> nonneg (num_add a b)"
  by (cases a; cases b) simp_all

lemma Math_max2_Fin [simp]: "Math_max2 (Fin a) (Fin b) = Fin (max a b)"
  by (simp add: Math_max2_def max_def)

lemma Math_min2_Fin [simp]: "Math_min2 (Fin a) (Fin b) = Fin (min a b)"
  by (auto simp add: Math_min2_def min_def)

lemma num_sub_Fin [simp]: "num_sub (Fin a) (Fin b) = Fin (a - b)"
  by (simp add: num_sub_def)


lemma Math_min2_cases: "a \<noteq> NaN \<Longrightarrow> b \<noteq> NaN \<Longrightarrow> Math_min2 a b = a \<or> Math_min2 a b = b"
  by (simp add: Math_min2_def)

lemma foldl_Math_min2_mem:
  "a \<noteq> NaN \<Longrightarrow> NaN \<notin> set xs \<Longrightarrow> foldl Math_min2 a xs \<in> insert a (set xs)"
proof (induction xs arbitrary: a)
  case Nil
  then show ?case by simp
next
  case (Cons x xs)
  have "Math_min2 a x = a \<or> Math_min2 a x = x"
    using Cons.prems by (intro Math_min2_cases) auto
  moreover have "foldl Math_min2 (Math_min2 a x) xs \<in> insert (Math_min2 a x) (set xs)"
    using Cons.prems calculation by (intro Cons.IH) auto
  ultimately show ?case by auto
qed

lemma Math_min2_PosInf: "x \<noteq> NaN \<Longrightarrow> Math_min2 PosInf x = x"
  by (cases x) (simp_all add: Math_min2_def)

lemma Math_min_mem: "xs \<noteq> [] \<Longrightarrow> NaN \<notin> set xs \<Longrightarrow> Math_min xs \<in> set xs"
proof (cases xs)
  case Nil
  then show "xs \<noteq> [] \<Longrightarrow> ?thesis" by simp
next
  case (Cons x ys)
  assume n: "NaN \<notin> set xs"
  with Cons have "foldl Math_min2 x ys \<in> insert x (set ys)"
    by (intro foldl_Math_min2_mem) auto
  moreover have "Math_min2 PosInf x = x"
    using Cons n by (intro Math_min2_PosInf) auto
  ultimately show ?thesis
    using Cons by (simp add: Math_min_def)
qed

lemma indexOf_from_mem:
  "v \<in> set xs \<Longrightarrow> v \<noteq> NaN \<Longrightarrow>
   \<exists>k. k < length xs \<and> indexOf_from xs v b = b + int k \<and> xs ! k = v \<and> (\<forall>j<k. xs ! j \<noteq> v)"
proof (induction xs arbitrary: b)
  case Nil
  then show ?case by simp
next
  case (Cons x xs)
  show ?case
  proof (cases "x = v")
    case True
    with Cons.prems show ?thesis
      by (intro exI [of _ 0]) (simp add: num_eq_def)
  next
    case False
    with Cons.prems have "v \<in> set xs" by simp
    from Cons.IH [OF this Cons.prems(2), of "b + 1"]
    obtain k where k: "k < length xs" "indexOf_from xs v (b + 1) = b + 1 + int k"
      "xs ! k = v" "\<forall>j<k. xs ! j \<noteq> v" by blast
    show ?thesis
    proof (intro exI [of _ "Suc k"] conjI allI impI)
      fix j assume "j < Suc k"
      then show "(x # xs) ! j \<noteq> v" using False k(4) by (cases j) auto
    qed (use k False in \<open>simp_all add: num_eq_def\<close>)
  qed
qed

lemma indexOf_mem:
  "v \<in> set xs \<Longrightarrow> v \<noteq> NaN \<Longrightarrow>
   \<exists>k. k < length xs \<and> indexOf xs v = int k \<and> xs ! k = v \<and> (\<forall>j<k. xs ! j \<noteq> v)"
  using indexOf_from_mem [of v xs 0] by (simp add: indexOf_def)


lemma foldl_Math_min2_Fin:
  "foldl Math_min2 (Fin a) (map Fin A) = Fin (Min (insert a (set A)))"
proof (induction A arbitrary: a)
  case Nil
  then show ?case by simp
next
  case (Cons x A)
  have "Min (insert (min a x) (set A)) = Min (insert a (insert x (set A)))"
    by (cases "set A = {}") (simp_all add: min.assoc)
  then show ?case
    by (simp add: Cons.IH)
qed

lemma Math_min_Fin: "A \<noteq> [] \<Longrightarrow> Math_min (map Fin A) = Fin (Min (set A))"
  by (cases A) (simp_all add: Math_min_def Math_min2_PosInf foldl_Math_min2_Fin)

section \<open>One assignment\<close>

lemma assign_server_nonnan:
  assumes "elems sft \<noteq> []" "NaN \<notin> set (elems sft)"
  shows "\<exists>k<length (elems sft).
           elems sft ! k = Math_min (elems sft) \<and>
           (\<forall>j<k. elems sft ! j \<noteq> Math_min (elems sft)) \<and>
           assign_server sft t st =
             (int k, Math_max2 t (elems sft ! k), num_sub (Math_max2 t (elems sft ! k)) t,
              num_add (Math_max2 t (elems sft ! k)) st,
              sft \<lparr> elems := (elems sft)[k := num_add (Math_max2 t (elems sft ! k)) st] \<rparr>)"
proof -
  have m: "Math_min (elems sft) \<in> set (elems sft)"
    using assms by (rule Math_min_mem)
  then have "Math_min (elems sft) \<noteq> NaN"
    using assms(2) by metis
  from indexOf_mem [OF m this]
  obtain k where k: "k < length (elems sft)" "indexOf (elems sft) (Math_min (elems sft)) = int k"
    "elems sft ! k = Math_min (elems sft)" "\<forall>j<k. elems sft ! j \<noteq> Math_min (elems sft)"
    by blast
  show ?thesis
  proof (intro exI [of _ k] conjI)
    show "assign_server sft t st =
      (int k, Math_max2 t (elems sft ! k), num_sub (Math_max2 t (elems sft ! k)) t,
       num_add (Math_max2 t (elems sft ! k)) st,
       sft \<lparr> elems := (elems sft)[k := num_add (Math_max2 t (elems sft ! k)) st] \<rparr>)"
      using k(1)
      by (simp add: assign_server_def k(2) array_get_def array_set_def to_number_def Let_def)
  qed (use k in auto)
qed

lemma assign_server_fin:
  assumes "elems sft = map Fin A" "A \<noteq> []"
  shows "\<exists>k<length A.
           A ! k = Min (set A) \<and> (\<forall>j<k. A ! j \<noteq> Min (set A)) \<and>
           assign_server sft (Fin t) (Fin s) =
             (int k, Fin (max t (A ! k)), Fin (max t (A ! k) - t), Fin (max t (A ! k) + s),
              sft \<lparr> elems := map Fin (A[k := max t (A ! k) + s]) \<rparr>)"
proof -
  have "elems sft \<noteq> []" "NaN \<notin> set (elems sft)"
    using assms by auto
  from assign_server_nonnan [OF this, of "Fin t" "Fin s"]
  obtain k where k: "k < length (elems sft)" "elems sft ! k = Math_min (elems sft)"
    "\<forall>j<k. elems sft ! j \<noteq> Math_min (elems sft)"
    "assign_server sft (Fin t) (Fin s) =
       (int k, Math_max2 (Fin t) (elems sft ! k), num_sub (Math_max2 (Fin t) (elems sft ! k)) (Fin t),
        num_add (Math_max2 (Fin t) (elems sft ! k)) (Fin s),
        sft \<lparr> elems := (elems sft)[k := num_add (Math_max2 (Fin t) (elems sft ! k)) (Fin s)] \<rparr>)"
    by blast
  have kA: "k < length A" using k(1) assms(1) by simp
  have mm: "Math_min (elems sft) = Fin (Min (set A))"
    using assms by (simp add: Math_min_Fin)
  have nth: "\<And>j. j < length A \<Longrightarrow> elems sft ! j = Fin (A ! j)"
    using assms(1) by simp
  show ?thesis
  proof (intro exI [of _ k] conjI allI impI)
    show "k < length A" by (rule kA)
    show "A ! k = Min (set A)" using k(2) mm nth [OF kA] by simp
    show "A ! j \<noteq> Min (set A)" if "j < k" for j
    proof -
      from that kA have "j < length A" by simp
      from nth [OF this] k(3) that mm show ?thesis by auto
    qed
    show "assign_server sft (Fin t) (Fin s) =
             (int k, Fin (max t (A ! k)), Fin (max t (A ! k) - t), Fin (max t (A ! k) + s),
              sft \<lparr> elems := map Fin (A[k := max t (A ! k) + s]) \<rparr>)"
      unfolding k(4) nth [OF kA] using assms(1) by (simp add: map_update)
  qed
qed



lemma fst_exponentialRandom [simp]: "fst (exponentialRandom rate R) = Fin R"
  by (simp add: exponentialRandom_def)


lemma runSimulation_loop_invariant:
  assumes "runSimulation_loop p draws sft t n cs = Some out"
    and "I sft t n cs"
    and "set draws \<subseteq> D"
    and step: "\<And>sft t n cs R1 R2 k s w e sft' t1.
      I sft t n cs \<Longrightarrow> R1 \<in> D \<Longrightarrow> R2 \<in> D \<Longrightarrow> num_lt t (duration p) \<Longrightarrow>
      t1 = num_add t (if n = 0 then Fin 0 else snd (exponentialRandom (arrivalRate p) R1)) \<Longrightarrow>
      \<not> num_ge t1 (duration p) \<Longrightarrow>
      assign_server sft t1 (snd (exponentialRandom (serviceRate p) R2)) = (k, s, w, e, sft') \<Longrightarrow>
      I sft' t1 (Suc n)
        (cs @ [\<lparr> id_c = Suc n, randomIAT = Fin R1, randomST = Fin R2,
                 interArrivalTime =
                   (if n = 0 then Fin 0 else snd (exponentialRandom (arrivalRate p) R1)),
                 arrivalTime = t1,
                 serviceTime = snd (exponentialRandom (serviceRate p) R2),
                 waitTime = w, startServiceTime = s, endServiceTime = e,
                 serverAssigned = k + 1 \<rparr>])"
  shows "\<exists>sft' t' n'. I sft' t' n' out"
  using assms(1-3)
proof (induction draws arbitrary: sft t n cs rule: length_induct)
  case (1 draws)
  show ?case
  proof (cases "num_lt t (duration p)")
    case False
    with "1.prems"(1) have "out = cs"
      by (simp add: runSimulation_loop.simps)
    with "1.prems"(2) show ?thesis by blast
  next
    case lt: True
    show ?thesis
    proof (cases draws)
      case Nil
      with lt "1.prems"(1) show ?thesis
        by (simp add: runSimulation_loop.simps)
    next
      case d1: (Cons R1 draws1)
      define t1 where
        "t1 = num_add t (if n = 0 then Fin 0 else snd (exponentialRandom (arrivalRate p) R1))"
      show ?thesis
      proof (cases "num_ge t1 (duration p)")
        case True
        with lt d1 "1.prems"(1) have "out = cs"
          by (subst (asm) runSimulation_loop.simps) (simp add: t1_def Let_def)
        with "1.prems"(2) show ?thesis by blast
      next
        case nge: False
        show ?thesis
        proof (cases draws1)
          case Nil
          with lt d1 nge "1.prems"(1) show ?thesis
            by (subst (asm) runSimulation_loop.simps) (simp add: t1_def Let_def)
        next
          case d2: (Cons R2 draws2)
          obtain k s w e sft' where a:
            "assign_server sft t1 (snd (exponentialRandom (serviceRate p) R2)) = (k, s, w, e, sft')"
            by (metis prod_cases5)
          let ?c = "\<lparr> id_c = Suc n, randomIAT = Fin R1, randomST = Fin R2,
                 interArrivalTime =
                   (if n = 0 then Fin 0 else snd (exponentialRandom (arrivalRate p) R1)),
                 arrivalTime = t1,
                 serviceTime = snd (exponentialRandom (serviceRate p) R2),
                 waitTime = w, startServiceTime = s, endServiceTime = e,
                 serverAssigned = k + 1 \<rparr>"
          have unfold: "runSimulation_loop p draws sft t n cs =
                        runSimulation_loop p draws2 sft' t1 (Suc n) (cs @ [?c])"
            using lt d1 nge d2 a
            by (subst runSimulation_loop.simps) (simp add: t1_def Let_def)
          have R: "R1 \<in> D" "R2 \<in> D" "set draws2 \<subseteq> D"
            using "1.prems"(3) d1 d2 by auto
          have I': "I sft' t1 (Suc n) (cs @ [?c])"
            using step [OF "1.prems"(2) R(1,2) lt t1_def nge a] .
          have "length draws2 < length draws"
            using d1 d2 by simp
          moreover have "runSimulation_loop p draws2 sft' t1 (Suc n) (cs @ [?c]) = Some out"
            using "1.prems"(1) unfold by simp
          ultimately show ?thesis
            using "1.IH" I' R(3) by blast
        qed
      qed
    qed
  qed
qed

section \<open>Loop invariants\<close>



lemma num_ge_Fin [simp]: "num_ge (Fin a) (Fin b) = (b \<le> a)"
  by (auto simp: num_ge_def num_eq_def)



lemma runSimulationFromDataset_loop_invariant:
  assumes "I i sft t cs"
    and "set rows \<subseteq> D"
    and step: "\<And>i sft t cs row k s w e sft' t1.
      I i sft t cs \<Longrightarrow> row \<in> D \<Longrightarrow>
      t1 = num_add t (if i = 0 then Fin 0 else DatasetRow.interArrivalTime row) \<Longrightarrow>
      assign_server sft t1 (DatasetRow.serviceTime row) = (k, s, w, e, sft') \<Longrightarrow>
      I (Suc i) sft' t1
        (cs @ [\<lparr> id_c = Suc i, randomIAT = Fin 0, randomST = Fin 0,
                 interArrivalTime = (if i = 0 then Fin 0 else DatasetRow.interArrivalTime row),
                 arrivalTime = t1, serviceTime = DatasetRow.serviceTime row,
                 waitTime = w, startServiceTime = s, endServiceTime = e,
                 serverAssigned = k + 1 \<rparr>])"
  shows "\<exists>sft' t'. I (i + length rows) sft' t' (runSimulationFromDataset_loop rows i sft t cs)"
  using assms(1,2)
proof (induction rows arbitrary: i sft t cs)
  case Nil
  then show ?case by auto
next
  case (Cons row rows)
  define t1 where "t1 = num_add t (if i = 0 then Fin 0 else DatasetRow.interArrivalTime row)"
  obtain k s w e sft' where a:
    "assign_server sft t1 (DatasetRow.serviceTime row) = (k, s, w, e, sft')"
    by (metis prod_cases5)
  let ?c = "\<lparr> id_c = Suc i, randomIAT = Fin 0, randomST = Fin 0,
                 interArrivalTime = (if i = 0 then Fin 0 else DatasetRow.interArrivalTime row),
                 arrivalTime = t1, serviceTime = DatasetRow.serviceTime row,
                 waitTime = w, startServiceTime = s, endServiceTime = e,
                 serverAssigned = k + 1 \<rparr>"
  have unfold: "runSimulationFromDataset_loop (row # rows) i sft t cs =
                runSimulationFromDataset_loop rows (Suc i) sft' t1 (cs @ [?c])"
    using a by (simp add: t1_def Let_def)
  have "row \<in> D" "set rows \<subseteq> D" using Cons.prems(2) by auto
  from step [OF Cons.prems(1) this(1) t1_def a] this(2)
  have "\<exists>sft'' t'. I (Suc i + length rows) sft'' t'
          (runSimulationFromDataset_loop rows (Suc i) sft' t1 (cs @ [?c]))"
    by (rule Cons.IH)
  then show ?case
    unfolding unfold by simp
qed


lemma new_Array_fill0_nat:
  "new_Array_fill0 (Fin (real c)) =
     (if c < 2 ^ 32 then Inr \<lparr> elems = replicate c (Fin 0), minus_one = None \<rparr>
      else Inl RangeError)"
proof -
  have "(real c < 2 ^ 32) = (c < 2 ^ 32)"
    by (metis of_nat_less_iff of_nat_numeral of_nat_power)
  then show ?thesis
    by (simp add: new_Array_fill0_def valid_array_length_def)
qed



lemma dataset_customers:
  assumes "runSimulationFromDataset dataset (Fin (real c)) = Inr res"
  shows "customers res =
           runSimulationFromDataset_loop dataset 0
             \<lparr> elems = replicate c (Fin 0), minus_one = None \<rparr> (Fin 0) []"
  using assms
  by (auto simp: runSimulationFromDataset_def new_Array_fill0_nat Let_def computeResults_counts
      split: if_splits)

lemma fin_inv_step:
  assumes inv: "fin_inv c sft (Fin \<tau>) cs"
    and c: "0 < c"
    and a: "assign_server sft (Fin \<tau>1) (Fin sv) = (k, s, w, e, sft')"
  shows "fin_inv c sft' (Fin \<tau>1)
           (cs @ [\<lparr> id_c = n, randomIAT = r1, randomST = r2, interArrivalTime = ia,
                    arrivalTime = Fin \<tau>1, serviceTime = Fin sv, waitTime = w,
                    startServiceTime = s, endServiceTime = e, serverAssigned = k + 1 \<rparr>])"
proof -
  from inv obtain A where A: "elems sft = map Fin A" "length A = c"
    by (auto simp: fin_inv_def)
  then have "A \<noteq> []" using c by auto
  from assign_server_fin [OF A(1) this, of \<tau>1 sv] a
  obtain j where j: "j < length A" "k = int j" "e = Fin (max \<tau>1 (A ! j) + sv)"
    "sft' = sft \<lparr> elems := map Fin (A[j := max \<tau>1 (A ! j) + sv]) \<rparr>"
    by auto
  have "\<exists>A'. elems sft' = map Fin A' \<and> length A' = c"
    unfolding j(4) using A(2) by (intro exI [of _ "A[j := max \<tau>1 (A ! j) + sv]"]) simp
  then show ?thesis
    using inv j(1,2,3) A(2) by (auto simp: fin_inv_def)
qed

lemma runSimulationFromDataset_fin_inv:
  assumes rows: "\<forall>row\<in>set dataset. \<exists>a s. DatasetRow.interArrivalTime row = Fin a \<and>
                                         DatasetRow.serviceTime row = Fin s"
    and servers: "1 \<le> c"
    and run: "runSimulationFromDataset dataset (Fin (real c)) = Inr res"
  shows "\<exists>sft t. fin_inv c sft t (customers res)"
proof -
  let ?sft0 = "\<lparr> elems = replicate c (Fin 0), minus_one = None \<rparr>"
  let ?D = "{row. \<exists>a s. DatasetRow.interArrivalTime row = Fin a \<and>
                        DatasetRow.serviceTime row = Fin s}"
  have D: "set dataset \<subseteq> ?D" using rows by auto
  have init: "fin_inv c ?sft0 (Fin 0) []"
    by (auto simp: fin_inv_def intro: exI [of _ "replicate c 0"])
  have "\<exists>sft' t'. fin_inv c sft' t' (runSimulationFromDataset_loop dataset 0 ?sft0 (Fin 0) [])"
    using init D
  proof (rule runSimulationFromDataset_loop_invariant [where I = "\<lambda>(i::nat) sft t cs. fin_inv c sft t cs"])
    fix i :: nat and sft t cs row k s w e sft' t1
    assume inv: "fin_inv c sft t cs" and row: "row \<in> ?D"
      and t1: "t1 = num_add t (if i = 0 then Fin 0 else DatasetRow.interArrivalTime row)"
      and a: "assign_server sft t1 (DatasetRow.serviceTime row) = (k, s, w, e, sft')"
    from inv obtain \<tau> where \<tau>: "t = Fin \<tau>" by (auto simp: fin_inv_def)
    from row obtain ia sv where r: "DatasetRow.interArrivalTime row = Fin ia"
      "DatasetRow.serviceTime row = Fin sv" by auto
    define \<tau>1 where "\<tau>1 = (if i = 0 then \<tau> else \<tau> + ia)"
    have \<tau>1: "t1 = Fin \<tau>1"
      using t1 \<tau> r by (auto simp: \<tau>1_def)
    show "fin_inv c sft' t1
        (cs @ [\<lparr> id_c = Suc i, randomIAT = Fin 0, randomST = Fin 0,
                 interArrivalTime = (if i = 0 then Fin 0 else DatasetRow.interArrivalTime row),
                 arrivalTime = t1, serviceTime = DatasetRow.serviceTime row,
                 waitTime = w, startServiceTime = s, endServiceTime = e,
                 serverAssigned = k + 1 \<rparr>])"
      unfolding \<tau>1 r(2)
      using inv [unfolded \<tau>] servers a [unfolded \<tau>1 r(2)]
      by (intro fin_inv_step) auto
  qed
  then show ?thesis
    using dataset_customers [OF run] by auto
qed

section \<open>The aggregator's counts\<close>

text \<open>
  C9. Every summary that \<^verbatim>\<open>runSimulation\<close> or \<^verbatim>\<open>runSimulationFromDataset\<close> returns
  has \<open>customersServed = totalCustomers\<close>, and both are the length of its \<open>customers\<close>.
\<close>

theorem served_equals_total:
  "(\<forall>res. runSimulation p draws = Some (Inr res) \<longrightarrow>
      customersServed res = totalCustomers res \<and> totalCustomers res = length (customers res)) \<and>
   (\<forall>res. runSimulationFromDataset dataset n = Inr res \<longrightarrow>
      customersServed res = totalCustomers res \<and> totalCustomers res = length (customers res))"
  by (auto simp: runSimulation_def runSimulationFromDataset_def computeResults_counts Let_def
      split: sum.splits option.splits)

theorem served_equals_total_witness:
  "(\<exists>res. runSimulation
            \<lparr> arrivalRate = Fin 1, serviceRate = Fin 1, numServers = Fin 1, duration = Fin 3 \<rparr>
            [exp (- 1), exp (- 1), exp (- 2), exp (- 1), exp (- 2)] = Some (Inr res) \<and>
          customersServed res = 2 \<and> totalCustomers res = 2 \<and> length (customers res) = 2) \<and>
   (\<exists>res. runSimulationFromDataset
            [\<lparr> DatasetRow.interArrivalTime = Fin 2, DatasetRow.serviceTime = Fin 3 \<rparr>,
             \<lparr> DatasetRow.interArrivalTime = Fin 4, DatasetRow.serviceTime = Fin 1 \<rparr>] (Fin 1)
          = Inr res \<and>
          customersServed res = 2 \<and> totalCustomers res = 2 \<and> length (customers res) = 2)"
proof -
  let ?p = "\<lparr> arrivalRate = Fin 1, serviceRate = Fin 1, numServers = Fin 1, duration = Fin 3 \<rparr>"
  let ?draws = "[exp (- 1), exp (- 1), exp (- 2), exp (- 1), exp (- 2 :: real)]"
  let ?ds = "[\<lparr> DatasetRow.interArrivalTime = Fin 2, DatasetRow.serviceTime = Fin 3 \<rparr>,
              \<lparr> DatasetRow.interArrivalTime = Fin 4, DatasetRow.serviceTime = Fin 1 \<rparr>]"
  obtain r1 where r1: "runSimulation ?p ?draws = Some (Inr r1)" "length (customers r1) = 2"
    by (simp add: runSimulation_def new_Array_fill0_1 num_defs Let_def computeResults_def
        runSimulation_loop.simps exponentialRandom_def)
  obtain r2 where r2: "runSimulationFromDataset ?ds (Fin 1) = Inr r2" "length (customers r2) = 2"
    by (simp add: runSimulationFromDataset_def new_Array_fill0_1 num_defs Let_def
        computeResults_def)
  from served_equals_total [of ?p ?draws ?ds "Fin 1"] r1 r2 show ?thesis
    by auto
qed

section \<open>The dataset round trip\<close>

text \<open>
  C4. \<^verbatim>\<open>parseCSV\<close> on the header \<^verbatim>\<open>iat,service\<close> with the data lines \<^verbatim>\<open>2,3\<close> and
  \<^verbatim>\<open>4,1\<close> gives the pairs \<open>(2, 3)\<close> and \<open>(4, 1)\<close>, and the dataset run on these pairs
  with one server gives entity 1 with arrival 0, wait 0, end of service 3 and entity 2
  with arrival 4, start of service 4, wait 0, end of service 5.
\<close>

theorem dataset_round_trip:
  "parseCSV (''iat,service'' @ [CHR 0x0A] @ ''2,3'' @ [CHR 0x0A] @ ''4,1'') =
     [\<lparr> DatasetRow.interArrivalTime = Fin 2, DatasetRow.serviceTime = Fin 3 \<rparr>,
      \<lparr> DatasetRow.interArrivalTime = Fin 4, DatasetRow.serviceTime = Fin 1 \<rparr>] \<and>
   (\<exists>res. runSimulationFromDataset
            (parseCSV (''iat,service'' @ [CHR 0x0A] @ ''2,3'' @ [CHR 0x0A] @ ''4,1'')) (Fin 1)
          = Inr res \<and>
      customers res =
        [\<lparr> id_c = 1, randomIAT = Fin 0, randomST = Fin 0, interArrivalTime = Fin 0,
           arrivalTime = Fin 0, serviceTime = Fin 3, waitTime = Fin 0,
           startServiceTime = Fin 0, endServiceTime = Fin 3, serverAssigned = 1 \<rparr>,
         \<lparr> id_c = 2, randomIAT = Fin 0, randomST = Fin 0, interArrivalTime = Fin 4,
           arrivalTime = Fin 4, serviceTime = Fin 1, waitTime = Fin 0,
           startServiceTime = Fin 4, endServiceTime = Fin 5, serverAssigned = 1 \<rparr>])"
proof -
  have parsed:
    "parseCSV (''iat,service'' @ [CHR 0x0A] @ ''2,3'' @ [CHR 0x0A] @ ''4,1'') =
       [\<lparr> DatasetRow.interArrivalTime = Fin 2, DatasetRow.serviceTime = Fin 3 \<rparr>,
        \<lparr> DatasetRow.interArrivalTime = Fin 4, DatasetRow.serviceTime = Fin 1 \<rparr>]"
    by (simp add: csv_defs)
  show ?thesis
    unfolding parsed
    by (simp add: runSimulationFromDataset_def new_Array_fill0_1 num_defs Let_def
        computeResults_def)
qed

section \<open>The stepper\<close>







section \<open>The invariants of a run\<close>

lemma nonneg_add_ge: "nonneg t \<Longrightarrow> nonneg ia \<Longrightarrow> num_ge (num_add t ia) t"
  by (cases t; cases ia) (auto simp: num_ge_def num_eq_def)

lemma num_ge_trans: "num_ge a b \<Longrightarrow> num_ge b c \<Longrightarrow> num_ge a c"
  by (cases a; cases b; cases c) (auto simp: num_ge_def num_eq_def)

lemma nonneg_Math_max2: "nonneg t \<Longrightarrow> x \<noteq> NaN \<Longrightarrow> nonneg (Math_max2 t x)"
  by (cases t; cases x) (simp_all add: Math_max2_def)

lemma wait_of_arrival:
  assumes "nonneg t" "x \<noteq> NaN"
  shows "if t = PosInf then num_sub (Math_max2 t x) t = NaN
         else num_ge (num_sub (Math_max2 t x) t) (Fin 0)"
  using assms by (cases t; cases x) (simp_all add: Math_max2_def num_sub_def num_ge_def num_eq_def)

lemma wf_inv_step:
  assumes inv: "wf_inv c sft t n cs"
    and c: "0 < c"
    and ia: "nonneg ia"
    and st: "nonneg st"
    and a: "assign_server sft (num_add t ia) st = (k, s, w, e, sft')"
  shows "wf_inv c sft' (num_add t ia) (Suc n)
           (cs @ [\<lparr> id_c = Suc n, randomIAT = r1, randomST = r2, interArrivalTime = ia',
                    arrivalTime = num_add t ia, serviceTime = st, waitTime = w,
                    startServiceTime = s, endServiceTime = e, serverAssigned = k + 1 \<rparr>])"
proof -
  let ?xs = "elems sft"
  let ?t1 = "num_add t ia"
  have len: "length ?xs = c" and nn: "NaN \<notin> set ?xs" and t: "nonneg t"
    and arr: "list_all (\<lambda>x. num_ge t (arrivalTime x)) cs"
    and srt: "sorted_wrt (\<lambda>x y. num_ge (arrivalTime y) (arrivalTime x)) cs"
    and ids: "map id_c cs = [1..<Suc n]"
    and ok: "list_all (\<lambda>x. entity_wellformed x \<and> 1 \<le> serverAssigned x \<and>
                           serverAssigned x \<le> int c \<and> nonneg (serviceTime x)) cs"
    using inv by (simp_all add: wf_inv_def)
  have ne: "?xs \<noteq> []" using len c by auto
  have t1: "nonneg ?t1" using t ia by (rule nonneg_add)
  have ge: "num_ge ?t1 t" using t ia by (rule nonneg_add_ge)
  from assign_server_nonnan [OF ne nn, of ?t1 st] a
  obtain j where j: "j < length ?xs" "k = int j"
    "s = Math_max2 ?t1 (?xs ! j)" "w = num_sub s ?t1" "e = num_add s st"
    "sft' = sft \<lparr> elems := ?xs[j := e] \<rparr>"
    by auto
  have xj: "?xs ! j \<noteq> NaN"
    using nn j(1) by (metis nth_mem)
  have s_nn: "nonneg s" unfolding j(3) using t1 xj by (rule nonneg_Math_max2)
  have "nonneg e" unfolding j(5) using s_nn st by (rule nonneg_add)
  then have e_nn: "e \<noteq> NaN" by auto
  have w_ok: "if ?t1 = PosInf then w = NaN else num_ge w (Fin 0)"
    unfolding j(4) j(3) using t1 xj by (rule wait_of_arrival)
  have set': "set (elems sft') \<subseteq> insert e (set ?xs)"
    unfolding j(6) by (simp add: set_update_subset_insert)
  let ?c = "\<lparr> id_c = Suc n, randomIAT = r1, randomST = r2, interArrivalTime = ia',
              arrivalTime = ?t1, serviceTime = st, waitTime = w,
              startServiceTime = s, endServiceTime = e, serverAssigned = k + 1 \<rparr>"
  have arr1: "list_all (\<lambda>x. num_ge ?t1 (arrivalTime x)) cs"
    using arr ge by (auto simp: list_all_iff intro: num_ge_trans)
  have self: "num_ge ?t1 ?t1"
    using t1 by (cases ?t1) (simp_all add: num_ge_def num_eq_def)
  have 1: "length (elems sft') = c" unfolding j(6) using len by simp
  have 2: "NaN \<notin> set (elems sft')" using set' e_nn nn by auto
  have 3: "list_all (\<lambda>x. num_ge ?t1 (arrivalTime x)) (cs @ [?c])"
    using arr1 self by simp
  have 4: "sorted_wrt (\<lambda>x y. num_ge (arrivalTime y) (arrivalTime x)) (cs @ [?c])"
    using srt arr1 by (simp add: sorted_wrt_append list_all_iff)
  have 5: "map id_c (cs @ [?c]) = [1..<Suc (Suc n)]"
    using ids by simp
  have 6: "entity_wellformed ?c \<and> 1 \<le> serverAssigned ?c \<and> serverAssigned ?c \<le> int c \<and>
           nonneg (serviceTime ?c)"
    using w_ok j(1,2,5) len st by (simp add: entity_wellformed_def)
  show ?thesis
    unfolding wf_inv_def using 1 2 t1 3 4 5 6 ok by simp
qed

lemma num_ge_0_nonneg: "num_ge x (Fin 0) \<Longrightarrow> nonneg x"
  by (simp add: nonneg_iff_ge)

lemma num_gt_0_nonneg: "num_gt x (Fin 0) \<Longrightarrow> nonneg x"
  by (cases x) (simp_all add: num_gt_def)

lemma runSimulationFromDataset_wf_inv:
  assumes rows: "\<forall>row\<in>set dataset. nonneg (DatasetRow.interArrivalTime row) \<and>
                                    nonneg (DatasetRow.serviceTime row)"
    and servers: "1 \<le> c"
    and run: "runSimulationFromDataset dataset (Fin (real c)) = Inr res"
  shows "\<exists>sft t. wf_inv c sft t (length dataset) (customers res)"
proof -
  let ?sft0 = "\<lparr> elems = replicate c (Fin 0), minus_one = None \<rparr>"
  let ?D = "{row. nonneg (DatasetRow.interArrivalTime row) \<and> nonneg (DatasetRow.serviceTime row)}"
  have D: "set dataset \<subseteq> ?D" using rows by auto
  have init: "wf_inv c ?sft0 (Fin 0) 0 []"
    by (simp add: wf_inv_def)
  have "\<exists>sft' t'. wf_inv c sft' t' (0 + length dataset)
          (runSimulationFromDataset_loop dataset 0 ?sft0 (Fin 0) [])"
    using init D
  proof (rule runSimulationFromDataset_loop_invariant [where I = "\<lambda>i sft t cs. wf_inv c sft t i cs"])
    fix i sft t cs row k s w e sft' t1
    assume inv: "wf_inv c sft t i cs" and row: "row \<in> ?D"
      and t1: "t1 = num_add t (if i = 0 then Fin 0 else DatasetRow.interArrivalTime row)"
      and a: "assign_server sft t1 (DatasetRow.serviceTime row) = (k, s, w, e, sft')"
    let ?ia = "if i = 0 then Fin 0 else DatasetRow.interArrivalTime row"
    have ia: "nonneg ?ia" using row by simp
    have st: "nonneg (DatasetRow.serviceTime row)" using row by simp
    have c: "0 < c" using servers by simp
    show "wf_inv c sft' t1 (Suc i)
        (cs @ [\<lparr> id_c = Suc i, randomIAT = Fin 0, randomST = Fin 0,
                 interArrivalTime = (if i = 0 then Fin 0 else DatasetRow.interArrivalTime row),
                 arrivalTime = t1, serviceTime = DatasetRow.serviceTime row,
                 waitTime = w, startServiceTime = s, endServiceTime = e,
                 serverAssigned = k + 1 \<rparr>])"
      unfolding t1 using inv c ia st a [unfolded t1] by (rule wf_inv_step)
  qed
  then show ?thesis
    using dataset_customers [OF run] by auto
qed






section \<open>The recorded server index\<close>

lemma exponentialRandom_sided:
  assumes "0 \<le> R" "R < 1"
  shows "sided (0 \<le> rate) (snd (exponentialRandom (Fin rate) R))"
proof (cases "R = 0")
  case True
  then show ?thesis
    by (simp add: exponentialRandom_def signed_inf_def sided_def)
next
  case False
  with assms have "ln R < 0" by simp
  with False assms show ?thesis
    by (simp add: exponentialRandom_def signed_inf_def sided_def)
qed

lemma sided_clock:
  assumes "t \<noteq> NaN" "t \<noteq> PosInf" "0 \<le> lam \<longrightarrow> t \<noteq> NegInf" "sided (0 \<le> lam) ia"
    and "num_lt t d" "\<not> num_ge (num_add t ia) d"
  shows "num_add t ia \<noteq> NaN \<and> num_add t ia \<noteq> PosInf \<and> (0 \<le> lam \<longrightarrow> num_add t ia \<noteq> NegInf)"
  using assms
  by (cases t; cases ia; cases d) (auto simp: sided_def num_ge_def num_eq_def split: if_splits)

lemma sided_end:
  assumes "t1 \<noteq> NaN" "t1 \<noteq> PosInf" "sided up x" "sided up st"
  shows "sided up (num_add (Math_max2 t1 x) st)"
  using assms
  by (cases t1; cases x; cases st) (auto simp: sided_def Math_max2_def split: if_splits)

lemma index_inv_step:
  assumes inv: "index_inv c lam mu sft t cs"
    and c: "0 < c"
    and t1: "t1 \<noteq> NaN" "t1 \<noteq> PosInf" "0 \<le> lam \<longrightarrow> t1 \<noteq> NegInf"
    and st: "sided (0 \<le> mu) st"
    and a: "assign_server sft t1 st = (k, s, w, e, sft')"
  shows "index_inv c lam mu sft' t1
           (cs @ [\<lparr> id_c = n, randomIAT = r1, randomST = r2, interArrivalTime = ia,
                    arrivalTime = t1, serviceTime = st, waitTime = w,
                    startServiceTime = s, endServiceTime = e, serverAssigned = k + 1 \<rparr>])"
proof -
  let ?xs = "elems sft"
  have len: "length ?xs = c" and sd: "\<forall>x\<in>set ?xs. sided (0 \<le> mu) x"
    and ok: "\<forall>x\<in>set cs. 1 \<le> serverAssigned x \<and> serverAssigned x \<le> int c"
    using inv by (auto simp: index_inv_def)
  have ne: "?xs \<noteq> []" using len c by auto
  have nn: "NaN \<notin> set ?xs" using sd by (auto simp: sided_def)
  from assign_server_nonnan [OF ne nn, of t1 st] a
  obtain j where j: "j < length ?xs" "k = int j"
    "e = num_add (Math_max2 t1 (?xs ! j)) st" "sft' = sft \<lparr> elems := ?xs[j := e] \<rparr>"
    by auto
  have "sided (0 \<le> mu) (?xs ! j)" using sd j(1) by simp
  with t1(1,2) have e: "sided (0 \<le> mu) e"
    unfolding j(3) using st by (intro sided_end)
  have "set (elems sft') \<subseteq> insert e (set ?xs)"
    unfolding j(4) by (simp add: set_update_subset_insert)
  with e sd have 1: "\<forall>x\<in>set (elems sft'). sided (0 \<le> mu) x" by auto
  have 2: "length (elems sft') = c" unfolding j(4) using len by simp
  show ?thesis
    unfolding index_inv_def using 1 2 t1 ok j(1,2) len by auto
qed

lemma runSimulation_index_inv:
  assumes rates: "arrivalRate p = Fin lam" "serviceRate p = Fin mu"
    and servers: "numServers p = Fin (real c)" "1 \<le> c"
    and draws: "\<forall>R\<in>set draws. 0 \<le> R \<and> R < 1"
    and run: "runSimulation p draws = Some (Inr res)"
  shows "\<forall>x\<in>set (customers res). 1 \<le> serverAssigned x \<and> serverAssigned x \<le> int c"
proof -
  let ?sft0 = "\<lparr> elems = replicate c (Fin 0), minus_one = None \<rparr>"
  from run servers(1) have arr: "new_Array_fill0 (numServers p) = Inr ?sft0"
    by (auto simp: runSimulation_def new_Array_fill0_nat split: if_splits)
  with run obtain cs where
    loop: "runSimulation_loop p draws ?sft0 (Fin 0) 0 [] = Some cs"
    and res: "res = computeResults cs (numServers p) (duration p) (arrivalRate p)"
    by (auto simp: runSimulation_def split: option.splits)
  have D: "set draws \<subseteq> {R. 0 \<le> R \<and> R < 1}"
    using draws by auto
  have init: "index_inv c lam mu ?sft0 (Fin 0) []"
    by (simp add: index_inv_def sided_def)
  have "\<exists>sft' t' (n' :: nat). index_inv c lam mu sft' t' cs"
    using loop init D
  proof (rule runSimulation_loop_invariant [where I = "\<lambda>sft t (n :: nat) cs. index_inv c lam mu sft t cs"])
    fix sft t cs k s w e sft' t1 and n :: nat and R1 R2 :: real
    assume inv: "index_inv c lam mu sft t cs"
      and R1: "R1 \<in> {R. 0 \<le> R \<and> R < 1}" and R2: "R2 \<in> {R. 0 \<le> R \<and> R < 1}"
      and lt: "num_lt t (duration p)"
      and t1: "t1 = num_add t (if n = 0 then Fin 0 else snd (exponentialRandom (arrivalRate p) R1))"
      and nge: "\<not> num_ge t1 (duration p)"
      and a: "assign_server sft t1 (snd (exponentialRandom (serviceRate p) R2)) = (k, s, w, e, sft')"
    let ?ia = "if n = 0 then Fin 0 else snd (exponentialRandom (arrivalRate p) R1)"
    have "sided (0 \<le> lam) (snd (exponentialRandom (Fin lam) R1))"
      using R1 by (intro exponentialRandom_sided) auto
    moreover have "sided (0 \<le> lam) (Fin 0)"
      by (simp add: sided_def)
    ultimately have ia: "sided (0 \<le> lam) ?ia"
      using rates(1) by simp
    have t: "t \<noteq> NaN" "t \<noteq> PosInf" "0 \<le> lam \<longrightarrow> t \<noteq> NegInf"
      using inv by (auto simp: index_inv_def)
    have t1': "t1 \<noteq> NaN" "t1 \<noteq> PosInf" "0 \<le> lam \<longrightarrow> t1 \<noteq> NegInf"
      using sided_clock [OF t ia lt nge [unfolded t1]] unfolding t1 by blast+
    have "sided (0 \<le> mu) (snd (exponentialRandom (Fin mu) R2))"
      using R2 by (intro exponentialRandom_sided) auto
    then have st: "sided (0 \<le> mu) (snd (exponentialRandom (serviceRate p) R2))"
      using rates(2) by simp
    show "index_inv c lam mu sft' t1
        (cs @ [\<lparr> id_c = Suc n, randomIAT = Fin R1, randomST = Fin R2,
                 interArrivalTime =
                   (if n = 0 then Fin 0 else snd (exponentialRandom (arrivalRate p) R1)),
                 arrivalTime = t1,
                 serviceTime = snd (exponentialRandom (serviceRate p) R2),
                 waitTime = w, startServiceTime = s, endServiceTime = e,
                 serverAssigned = k + 1 \<rparr>])"
      using inv _ t1' st a
    proof (rule index_inv_step)
      show "0 < c" using servers(2) by simp
    qed
  qed
  then show ?thesis
    by (auto simp: res computeResults_counts index_inv_def)
qed

lemma parseCSV_loop_nonneg:
  assumes "\<forall>r\<in>set rows. nonneg (DatasetRow.interArrivalTime r) \<and> nonneg (DatasetRow.serviceTime r)"
  shows "\<forall>r\<in>set (parseCSV_loop ls iatCol stCol rows).
           nonneg (DatasetRow.interArrivalTime r) \<and> nonneg (DatasetRow.serviceTime r)"
  using assms
proof (induction ls arbitrary: rows)
  case Nil
  then show ?case by simp
next
  case (Cons line ls)
  let ?iat = "parseFloat (cell (split_cells line) iatCol)"
  let ?st = "parseFloat (cell (split_cells line) stCol)"
  let ?rows = "if \<not> isNaN ?iat \<and> \<not> isNaN ?st \<and> num_ge ?iat (Fin 0) \<and> num_gt ?st (Fin 0)
               then rows @ [\<lparr> DatasetRow.interArrivalTime = ?iat, DatasetRow.serviceTime = ?st \<rparr>]
               else rows"
  have "\<forall>r\<in>set ?rows. nonneg (DatasetRow.interArrivalTime r) \<and> nonneg (DatasetRow.serviceTime r)"
    using Cons.prems by (auto intro: num_ge_0_nonneg num_gt_0_nonneg)
  then have "\<forall>r\<in>set (parseCSV_loop ls iatCol stCol ?rows).
           nonneg (DatasetRow.interArrivalTime r) \<and> nonneg (DatasetRow.serviceTime r)"
    by (rule Cons.IH)
  then show ?case by (simp add: Let_def)
qed

lemma parseCSV_nonneg:
  "\<forall>r\<in>set (parseCSV text).
     nonneg (DatasetRow.interArrivalTime r) \<and> nonneg (DatasetRow.serviceTime r)"
proof -
  have "\<forall>r\<in>set (parseCSV_loop ls iatCol stCol []).
     nonneg (DatasetRow.interArrivalTime r) \<and> nonneg (DatasetRow.serviceTime r)"
    for ls iatCol stCol
    by (rule parseCSV_loop_nonneg) simp
  then show ?thesis
    by (cases "detect_columns (hd (split_lines (trim text)))") (simp add: parseCSV_def Let_def)
qed

lemma runSimulationFromDataset_nonneg_index:
  assumes rows: "\<forall>row\<in>set dataset. nonneg (DatasetRow.interArrivalTime row) \<and>
                                    nonneg (DatasetRow.serviceTime row)"
    and servers: "1 \<le> c"
    and run: "runSimulationFromDataset dataset (Fin (real c)) = Inr res"
  shows "\<forall>x\<in>set (customers res). 1 \<le> serverAssigned x \<and> serverAssigned x \<le> int c"
proof -
  from runSimulationFromDataset_wf_inv [OF rows servers run]
  obtain sft' t' where "wf_inv c sft' t' (length dataset) (customers res)" by blast
  then show ?thesis
    by (simp add: wf_inv_def list_all_iff)
qed

text \<open>
  C10, as stated, fails when a \<^verbatim>\<open>NaN\<close> reaches the server array. A dataset row
  with the service time \<^verbatim>\<open>NaN\<close> leaves \<^verbatim>\<open>NaN\<close> as the finish time of its server; for
  the next entity \<^verbatim>\<open>Math.min\<close> is \<^verbatim>\<open>NaN\<close>, \<^verbatim>\<open>indexOf(NaN)\<close> is \<open>-1\<close>, the array is
  read and written at \<open>-1\<close>, and the entity records the server \<open>0\<close>.
\<close>

theorem nan_service_time_index:
  "runSimulationFromDataset
     [\<lparr> DatasetRow.interArrivalTime = Fin 0, DatasetRow.serviceTime = NaN \<rparr>,
      \<lparr> DatasetRow.interArrivalTime = Fin 0, DatasetRow.serviceTime = Fin 1 \<rparr>] (Fin 1) =
   Inr \<lparr> customers =
           [\<lparr> id_c = 1, randomIAT = Fin 0, randomST = Fin 0, interArrivalTime = Fin 0,
              arrivalTime = Fin 0, serviceTime = NaN, waitTime = Fin 0,
              startServiceTime = Fin 0, endServiceTime = NaN, serverAssigned = 1 \<rparr>,
            \<lparr> id_c = 2, randomIAT = Fin 0, randomST = Fin 0, interArrivalTime = Fin 0,
              arrivalTime = Fin 0, serviceTime = Fin 1, waitTime = NaN,
              startServiceTime = NaN, endServiceTime = NaN, serverAssigned = 0 \<rparr>],
         avgWaitTime = NaN, maxWaitTime = NaN, avgQueueLength = NaN,
         serverUtilization = Fin 0, totalCustomers = 2, customersServed = 2 \<rparr> \<and>
   indexOf [NaN] (Math_min [NaN]) = - 1"
  by (simp add: runSimulationFromDataset_def new_Array_fill0_1 num_defs Let_def
      computeResults_def Math_max_def Math_min_def indexOf_def assign_server_def
      array_get_def array_set_def to_number_def)

text \<open>
  C10 (amended). With an integer number of servers \<open>c \<ge> 1\<close>, every entity has
  \<open>serverAssigned\<close> in \<open>1 .. c\<close> (the search for the minimum finds an index of the array)
  in a run of \<^verbatim>\<open>runSimulation\<close> with finite rates, of any sign, for any horizon and
  draws in \<open>[0, 1)\<close>, and in a run of \<^verbatim>\<open>runSimulationFromDataset\<close> on rows that are all
  finite, of any sign, or all \<open>\<ge> 0\<close>, \<^verbatim>\<open>Infinity\<close> included; so on every dataset that
  \<^verbatim>\<open>parseCSV\<close> returns. (A \<^verbatim>\<open>NaN\<close> in a row, a \<^verbatim>\<open>NaN\<close> rate or an infinite rate can
  put \<^verbatim>\<open>NaN\<close> in the server array, and then the entities that follow record \<open>0\<close>.)
\<close>

theorem server_index_in_range:
  "(\<forall>res. arrivalRate p = Fin lam \<and> serviceRate p = Fin mu \<and>
          numServers p = Fin (real c) \<and> 1 \<le> c \<and> (\<forall>R\<in>set draws. 0 \<le> R \<and> R < 1) \<and>
          runSimulation p draws = Some (Inr res) \<longrightarrow>
          (\<forall>x\<in>set (customers res). 1 \<le> serverAssigned x \<and> serverAssigned x \<le> int c)) \<and>
   (\<forall>res. (\<forall>row\<in>set dataset. \<exists>a s. DatasetRow.interArrivalTime row = Fin a \<and>
                                    DatasetRow.serviceTime row = Fin s) \<and>
          1 \<le> c \<and> runSimulationFromDataset dataset (Fin (real c)) = Inr res \<longrightarrow>
          (\<forall>x\<in>set (customers res). 1 \<le> serverAssigned x \<and> serverAssigned x \<le> int c)) \<and>
   (\<forall>res. (\<forall>row\<in>set dataset. num_ge (DatasetRow.interArrivalTime row) (Fin 0) \<and>
                              num_ge (DatasetRow.serviceTime row) (Fin 0)) \<and>
          1 \<le> c \<and> runSimulationFromDataset dataset (Fin (real c)) = Inr res \<longrightarrow>
          (\<forall>x\<in>set (customers res). 1 \<le> serverAssigned x \<and> serverAssigned x \<le> int c)) \<and>
   (\<forall>res. 1 \<le> c \<and> runSimulationFromDataset (parseCSV text) (Fin (real c)) = Inr res \<longrightarrow>
          (\<forall>x\<in>set (customers res). 1 \<le> serverAssigned x \<and> serverAssigned x \<le> int c))"
proof (intro conjI allI impI)
  fix res
  assume "arrivalRate p = Fin lam \<and> serviceRate p = Fin mu \<and>
          numServers p = Fin (real c) \<and> 1 \<le> c \<and> (\<forall>R\<in>set draws. 0 \<le> R \<and> R < 1) \<and>
          runSimulation p draws = Some (Inr res)"
  then show "\<forall>x\<in>set (customers res). 1 \<le> serverAssigned x \<and> serverAssigned x \<le> int c"
    by (intro runSimulation_index_inv [where lam = lam and mu = mu and draws = draws and p = p])
      auto
next
  fix res
  assume "(\<forall>row\<in>set dataset. \<exists>a s. DatasetRow.interArrivalTime row = Fin a \<and>
                                    DatasetRow.serviceTime row = Fin s) \<and>
          1 \<le> c \<and> runSimulationFromDataset dataset (Fin (real c)) = Inr res"
  then have "\<exists>sft t. fin_inv c sft t (customers res)"
    by (intro runSimulationFromDataset_fin_inv [where dataset = dataset]) auto
  then show "\<forall>x\<in>set (customers res). 1 \<le> serverAssigned x \<and> serverAssigned x \<le> int c"
    by (auto simp: fin_inv_def)
next
  fix res
  assume h: "(\<forall>row\<in>set dataset. num_ge (DatasetRow.interArrivalTime row) (Fin 0) \<and>
                              num_ge (DatasetRow.serviceTime row) (Fin 0)) \<and>
          1 \<le> c \<and> runSimulationFromDataset dataset (Fin (real c)) = Inr res"
  then have rows: "\<forall>row\<in>set dataset. nonneg (DatasetRow.interArrivalTime row) \<and>
                                     nonneg (DatasetRow.serviceTime row)"
    using num_ge_0_nonneg by blast
  from h have c: "1 \<le> c" and run: "runSimulationFromDataset dataset (Fin (real c)) = Inr res"
    by blast+
  from rows c run
  show "\<forall>x\<in>set (customers res). 1 \<le> serverAssigned x \<and> serverAssigned x \<le> int c"
    by (rule runSimulationFromDataset_nonneg_index)
next
  fix res
  assume h: "1 \<le> c \<and> runSimulationFromDataset (parseCSV text) (Fin (real c)) = Inr res"
  then have c: "1 \<le> c"
    and run: "runSimulationFromDataset (parseCSV text) (Fin (real c)) = Inr res"
    by blast+
  from parseCSV_nonneg c run
  show "\<forall>x\<in>set (customers res). 1 \<le> serverAssigned x \<and> serverAssigned x \<le> int c"
    by (rule runSimulationFromDataset_nonneg_index)
qed

theorem server_index_in_range_witness:
  "(\<exists>res. runSimulation
            \<lparr> arrivalRate = Fin 1, serviceRate = Fin 1, numServers = Fin 2, duration = Fin 3 \<rparr>
            [exp (- 1), exp (- 3), exp (- 1), exp (- 1), exp (- 2)] = Some (Inr res) \<and>
          map serverAssigned (customers res) = [1, 2] \<and>
          list_all (\<lambda>x. 1 \<le> serverAssigned x \<and> serverAssigned x \<le> 2) (customers res)) \<and>
   (\<exists>res. runSimulationFromDataset
            [\<lparr> DatasetRow.interArrivalTime = Fin 0, DatasetRow.serviceTime = Fin 3 \<rparr>,
             \<lparr> DatasetRow.interArrivalTime = Fin 1, DatasetRow.serviceTime = Fin (- 1) \<rparr>,
             \<lparr> DatasetRow.interArrivalTime = Fin (- 1), DatasetRow.serviceTime = Fin 1 \<rparr>] (Fin 2)
          = Inr res \<and>
          map serverAssigned (customers res) = [1, 2, 2] \<and>
          list_all (\<lambda>x. 1 \<le> serverAssigned x \<and> serverAssigned x \<le> 2) (customers res)) \<and>
   (\<exists>res. runSimulationFromDataset
            [\<lparr> DatasetRow.interArrivalTime = Fin 0, DatasetRow.serviceTime = PosInf \<rparr>,
             \<lparr> DatasetRow.interArrivalTime = PosInf, DatasetRow.serviceTime = Fin 1 \<rparr>,
             \<lparr> DatasetRow.interArrivalTime = Fin 1, DatasetRow.serviceTime = Fin 0 \<rparr>] (Fin 2)
          = Inr res \<and>
          map serverAssigned (customers res) = [1, 2, 1] \<and>
          list_all (\<lambda>x. 1 \<le> serverAssigned x \<and> serverAssigned x \<le> 2) (customers res)) \<and>
   (\<exists>res. runSimulationFromDataset
            (parseCSV (''iat,st'' @ [CHR 0x0A] @ ''0,1'' @ [CHR 0x0A] @ ''Infinity,1'')) (Fin 2)
          = Inr res \<and>
          map serverAssigned (customers res) = [1, 2] \<and>
          list_all (\<lambda>x. 1 \<le> serverAssigned x \<and> serverAssigned x \<le> 2) (customers res))"
proof -
  let ?p = "\<lparr> arrivalRate = Fin 1, serviceRate = Fin 1, numServers = Fin 2, duration = Fin 3 \<rparr>"
  let ?draws = "[exp (- 1), exp (- 3), exp (- 1), exp (- 1), exp (- 2 :: real)]"
  let ?ds = "[\<lparr> DatasetRow.interArrivalTime = Fin 0, DatasetRow.serviceTime = Fin 3 \<rparr>,
             \<lparr> DatasetRow.interArrivalTime = Fin 1, DatasetRow.serviceTime = Fin (- 1) \<rparr>,
             \<lparr> DatasetRow.interArrivalTime = Fin (- 1), DatasetRow.serviceTime = Fin 1 \<rparr>]"
  let ?di = "[\<lparr> DatasetRow.interArrivalTime = Fin 0, DatasetRow.serviceTime = PosInf \<rparr>,
             \<lparr> DatasetRow.interArrivalTime = PosInf, DatasetRow.serviceTime = Fin 1 \<rparr>,
             \<lparr> DatasetRow.interArrivalTime = Fin 1, DatasetRow.serviceTime = Fin 0 \<rparr>]"
  let ?text = "''iat,st'' @ [CHR 0x0A] @ ''0,1'' @ [CHR 0x0A] @ ''Infinity,1''"
  obtain r1 where r1: "runSimulation ?p ?draws = Some (Inr r1)"
    "map serverAssigned (customers r1) = [1, 2]"
    by (simp add: runSimulation_def new_Array_fill0_2 num_defs Let_def computeResults_def
        runSimulation_loop.simps exponentialRandom_def)
  obtain r2 where r2: "runSimulationFromDataset ?ds (Fin 2) = Inr r2"
    "map serverAssigned (customers r2) = [1, 2, 2]"
    by (simp add: runSimulationFromDataset_def new_Array_fill0_2 num_defs Let_def
        computeResults_def)
  obtain r3 where r3: "runSimulationFromDataset ?di (Fin 2) = Inr r3"
    "map serverAssigned (customers r3) = [1, 2, 1]"
    by (simp add: runSimulationFromDataset_def new_Array_fill0_2 num_defs Let_def
        computeResults_def)
  have csv: "parseCSV ?text =
     [\<lparr> DatasetRow.interArrivalTime = Fin 0, DatasetRow.serviceTime = Fin 1 \<rparr>,
      \<lparr> DatasetRow.interArrivalTime = PosInf, DatasetRow.serviceTime = Fin 1 \<rparr>]"
    by (simp add: csv_defs signed_inf_def)
  obtain r4 where r4: "runSimulationFromDataset (parseCSV ?text) (Fin 2) = Inr r4"
    "map serverAssigned (customers r4) = [1, 2]"
    unfolding csv
    by (simp add: runSimulationFromDataset_def new_Array_fill0_2 num_defs Let_def
        computeResults_def)
  have d: "\<forall>R\<in>set ?draws. 0 \<le> R \<and> R < 1" by simp
  have rows: "\<forall>row\<in>set ?ds. \<exists>a s. DatasetRow.interArrivalTime row = Fin a \<and>
                                    DatasetRow.serviceTime row = Fin s" by simp
  have rowsi: "\<forall>row\<in>set ?di. num_ge (DatasetRow.interArrivalTime row) (Fin 0) \<and>
                              num_ge (DatasetRow.serviceTime row) (Fin 0)"
    by (simp add: num_defs)
  have "\<forall>x\<in>set (customers r1). 1 \<le> serverAssigned x \<and> serverAssigned x \<le> int 2"
    using server_index_in_range [of ?p 1 1 2 ?draws ?ds ?text] r1(1) d by simp
  then have "list_all (\<lambda>x. 1 \<le> serverAssigned x \<and> serverAssigned x \<le> 2) (customers r1)"
    by (simp add: list_all_iff)
  with r1 have A: "runSimulation ?p ?draws = Some (Inr r1) \<and>
      map serverAssigned (customers r1) = [1, 2] \<and>
      list_all (\<lambda>x. 1 \<le> serverAssigned x \<and> serverAssigned x \<le> 2) (customers r1)"
    by (intro conjI)
  have "\<forall>x\<in>set (customers r2). 1 \<le> serverAssigned x \<and> serverAssigned x \<le> int 2"
    using server_index_in_range [of ?p 1 1 2 ?draws ?ds ?text] r2(1) rows by simp
  then have "list_all (\<lambda>x. 1 \<le> serverAssigned x \<and> serverAssigned x \<le> 2) (customers r2)"
    by (simp add: list_all_iff)
  with r2 have B: "runSimulationFromDataset ?ds (Fin 2) = Inr r2 \<and>
      map serverAssigned (customers r2) = [1, 2, 2] \<and>
      list_all (\<lambda>x. 1 \<le> serverAssigned x \<and> serverAssigned x \<le> 2) (customers r2)"
    by (intro conjI)
  have "\<forall>x\<in>set (customers r3). 1 \<le> serverAssigned x \<and> serverAssigned x \<le> int 2"
    using server_index_in_range [of ?p 1 1 2 ?draws ?di ?text] r3(1) rowsi by simp
  then have "list_all (\<lambda>x. 1 \<le> serverAssigned x \<and> serverAssigned x \<le> 2) (customers r3)"
    by (simp add: list_all_iff)
  with r3 have C: "runSimulationFromDataset ?di (Fin 2) = Inr r3 \<and>
      map serverAssigned (customers r3) = [1, 2, 1] \<and>
      list_all (\<lambda>x. 1 \<le> serverAssigned x \<and> serverAssigned x \<le> 2) (customers r3)"
    by (intro conjI)
  have "\<forall>x\<in>set (customers r4). 1 \<le> serverAssigned x \<and> serverAssigned x \<le> int 2"
    using server_index_in_range [of ?p 1 1 2 ?draws ?ds ?text] r4(1) by simp
  then have "list_all (\<lambda>x. 1 \<le> serverAssigned x \<and> serverAssigned x \<le> 2) (customers r4)"
    by (simp add: list_all_iff)
  with r4 have D: "runSimulationFromDataset (parseCSV ?text) (Fin 2) = Inr r4 \<and>
      map serverAssigned (customers r4) = [1, 2] \<and>
      list_all (\<lambda>x. 1 \<le> serverAssigned x \<and> serverAssigned x \<le> 2) (customers r4)"
    by (intro conjI)
  show ?thesis
    by (rule conjI, rule exI [of _ r1], rule A, rule conjI, rule exI [of _ r2], rule B,
        rule conjI, rule exI [of _ r3], rule C, rule exI [of _ r4], rule D)
qed

section \<open>The range of the utilization\<close>












section \<open>Parameter validation\<close>

lemma new_Array_fill0_0:
  "new_Array_fill0 (Fin 0) = Inr \<lparr> elems = [], minus_one = None \<rparr>"
  by (simp add: new_Array_fill0_def valid_array_length_def)

lemma new_Array_fill0_invalid:
  "\<not> valid_array_length n \<Longrightarrow> new_Array_fill0 n = Inl RangeError"
  by (cases n) (simp_all add: new_Array_fill0_def)

text \<open>
  C7, as stated, fails: \<^verbatim>\<open>runSimulation\<close> returns a summary, and no error, for a zero
  horizon, for a zero arrival rate and for zero servers (where the waits are \<^verbatim>\<open>NaN\<close>).
\<close>

theorem no_rejection:
  "runSimulation
     \<lparr> arrivalRate = Fin 1, serviceRate = Fin 1, numServers = Fin 1, duration = Fin 0 \<rparr> [] =
   Some (Inr \<lparr> customers = [], avgWaitTime = Fin 0, maxWaitTime = Fin 0, avgQueueLength = Fin 0,
               serverUtilization = Fin 0, totalCustomers = 0, customersServed = 0 \<rparr>) \<and>
   runSimulation
     \<lparr> arrivalRate = Fin 0, serviceRate = Fin 1, numServers = Fin 1, duration = Fin 10 \<rparr>
     [exp (- 1), exp (- 1), exp (- 1)] =
   Some (Inr \<lparr> customers =
                 [\<lparr> id_c = 1, randomIAT = Fin (exp (- 1)), randomST = Fin (exp (- 1)),
                    interArrivalTime = Fin 0, arrivalTime = Fin 0, serviceTime = Fin 1,
                    waitTime = Fin 0, startServiceTime = Fin 0, endServiceTime = Fin 1,
                    serverAssigned = 1 \<rparr>],
               avgWaitTime = Fin 0, maxWaitTime = Fin 0, avgQueueLength = Fin 0,
               serverUtilization = Fin 10, totalCustomers = 1, customersServed = 1 \<rparr>) \<and>
   runSimulation
     \<lparr> arrivalRate = Fin 1, serviceRate = Fin 1, numServers = Fin 0, duration = Fin 10 \<rparr>
     [exp (- 1), exp (- 1), exp (- 20)] =
   Some (Inr \<lparr> customers =
                 [\<lparr> id_c = 1, randomIAT = Fin (exp (- 1)), randomST = Fin (exp (- 1)),
                    interArrivalTime = Fin 0, arrivalTime = Fin 0, serviceTime = Fin 1,
                    waitTime = NaN, startServiceTime = NaN, endServiceTime = NaN,
                    serverAssigned = 0 \<rparr>],
               avgWaitTime = NaN, maxWaitTime = NaN, avgQueueLength = NaN,
               serverUtilization = Fin 100, totalCustomers = 1, customersServed = 1 \<rparr>)"
  by (simp add: runSimulation_def new_Array_fill0_1 new_Array_fill0_0 num_defs Let_def
      computeResults_def runSimulation_loop.simps exponentialRandom_def)

text \<open>
  C7 (amended). \<^verbatim>\<open>runSimulation\<close> validates no parameter. A \<open>numServers\<close> that is not
  an array length (negative, fractional, \<^verbatim>\<open>NaN\<close>, infinite or \<open>\<ge> 2^32\<close>) makes the
  allocation \<^verbatim>\<open>new Array(numServers)\<close> raise \<^verbatim>\<open>RangeError\<close> before the loop. When
  the allocation succeeds, which takes a \<open>numServers\<close> that is an array length (zero is
  one), and the horizon is not \<open>> 0\<close> (zero, negative or \<^verbatim>\<open>NaN\<close>), the run returns the
  all-zero summary, whatever the rates and whatever the draws.
\<close>

theorem no_parameter_validation:
  "(\<not> valid_array_length (numServers p) \<longrightarrow> runSimulation p draws = Some (Inl RangeError)) \<and>
   (\<forall>sft. new_Array_fill0 (numServers p) = Inr sft \<longrightarrow> valid_array_length (numServers p)) \<and>
   (\<forall>sft. new_Array_fill0 (numServers p) = Inr sft \<and> \<not> num_gt (duration p) (Fin 0) \<longrightarrow>
      runSimulation p draws = Some (Inr zero_summary))"
proof (intro conjI allI impI)
  assume "\<not> valid_array_length (numServers p)"
  then show "runSimulation p draws = Some (Inl RangeError)"
    by (simp add: runSimulation_def new_Array_fill0_invalid)
next
  fix sft
  assume "new_Array_fill0 (numServers p) = Inr sft"
  then show "valid_array_length (numServers p)"
    using new_Array_fill0_invalid [of "numServers p"] by auto
next
  fix sft
  assume h: "new_Array_fill0 (numServers p) = Inr sft \<and> \<not> num_gt (duration p) (Fin 0)"
  then have sft: "new_Array_fill0 (numServers p) = Inr sft" by blast
  have "runSimulation_loop p draws sft (Fin 0) 0 [] = Some []"
    using h by (subst runSimulation_loop.simps) (simp add: num_gt_def)
  then show "runSimulation p draws = Some (Inr zero_summary)"
    by (simp add: runSimulation_def sft computeResults_def zero_summary_def)
qed

theorem no_parameter_validation_witness:
  "runSimulation
     \<lparr> arrivalRate = Fin 1, serviceRate = Fin 1, numServers = Fin (- 1), duration = Fin 10 \<rparr>
     [exp (- 1)] = Some (Inl RangeError) \<and>
   runSimulation
     \<lparr> arrivalRate = Fin 0, serviceRate = Fin (- 1), numServers = Fin 0, duration = Fin (- 2) \<rparr>
     [exp (- 1)] = Some (Inr zero_summary) \<and>
   runSimulation
     \<lparr> arrivalRate = Fin (- 1), serviceRate = Fin 0, numServers = Fin 3, duration = NaN \<rparr>
     [] = Some (Inr zero_summary)"
proof -
  let ?p = "\<lparr> arrivalRate = Fin 1, serviceRate = Fin 1, numServers = Fin (- 1),
              duration = Fin 10 \<rparr>"
  let ?q = "\<lparr> arrivalRate = Fin 0, serviceRate = Fin (- 1), numServers = Fin 0,
              duration = Fin (- 2) \<rparr>"
  let ?r = "\<lparr> arrivalRate = Fin (- 1), serviceRate = Fin 0, numServers = Fin 3,
              duration = NaN \<rparr>"
  have 1: "\<not> valid_array_length (numServers ?p)"
    by (simp add: valid_array_length_def)
  have 2: "new_Array_fill0 (numServers ?q) = Inr \<lparr> elems = [], minus_one = None \<rparr>"
    "\<not> num_gt (duration ?q) (Fin 0)"
    by (simp_all add: new_Array_fill0_0 num_gt_def)
  have 3: "new_Array_fill0 (numServers ?r) =
             Inr \<lparr> elems = [Fin 0, Fin 0, Fin 0], minus_one = None \<rparr>"
    "\<not> num_gt (duration ?r) (Fin 0)"
    by (simp_all add: new_Array_fill0_def valid_array_length_def num_gt_def numeral_3_eq_3)
  from no_parameter_validation [of ?p "[exp (- 1)]"] 1
  have A: "runSimulation ?p [exp (- 1)] = Some (Inl RangeError)" by blast
  from no_parameter_validation [of ?q "[exp (- 1)]"] 2
  have B: "runSimulation ?q [exp (- 1)] = Some (Inr zero_summary)" by blast
  from no_parameter_validation [of ?r "[]"] 3
  have C: "runSimulation ?r [] = Some (Inr zero_summary)" by blast
  from A B C show ?thesis by (intro conjI)
qed

section \<open>The summary\<close>








section \<open>More servers, less waiting\<close>























section \<open>The rows that parseCSV accepts\<close>

lemma number_of_literal_not_NaN [simp]: "number_of_literal v \<noteq> NaN"
  by (simp add: number_of_literal_def signed_inf_def)

lemma parseFloat_string_NaN_iff: "parseFloat_string s = NaN \<longleftrightarrow> \<not> numeric_prefix s"
proof -
  define u where "u = unsigned_part s"
  define r1 where "r1 = dropWhile is_digit u"
  have ip: "takeWhile is_digit u = [] \<longleftrightarrow> u = [] \<or> \<not> is_digit (hd u)"
    by (cases u) simp_all
  have r1: "r1 = u" if "takeWhile is_digit u = []"
    using that unfolding r1_def by (cases u) (simp_all split: if_splits)
  have fp: "takeWhile is_digit (tl u) = [] \<longleftrightarrow> tl u = [] \<or> \<not> is_digit (hd (tl u))"
    by (cases "tl u") simp_all
  show ?thesis
  proof (cases "take 8 u = ''Infinity''")
    case True
    then show ?thesis
      by (simp add: parseFloat_string_def numeric_prefix_def unsigned_part_def u_def Let_def)
  next
    case False
    show ?thesis
    proof (cases "takeWhile is_digit u = []")
      case ne: False
      then have "u \<noteq> [] \<and> is_digit (hd u)" using ip by simp
      then have "numeric_prefix s"
        by (simp add: numeric_prefix_def u_def Let_def)
      moreover have "parseFloat_string s \<noteq> NaN"
        using False ne
        by (simp add: parseFloat_string_def unsigned_part_def u_def Let_def)
      ultimately show ?thesis by simp
    next
      case True
      note r1 [OF True, unfolded r1_def]
      then have "parseFloat_string s = NaN \<longleftrightarrow>
                 \<not> (u \<noteq> [] \<and> hd u = CHR ''.'' \<and> takeWhile is_digit (tl u) \<noteq> [])"
        using False True
        by (simp add: parseFloat_string_def unsigned_part_def u_def Let_def)
      moreover have "numeric_prefix s \<longleftrightarrow>
                 (u \<noteq> [] \<and> hd u = CHR ''.'' \<and> takeWhile is_digit (tl u) \<noteq> [])"
        using False True ip fp
        by (auto simp: numeric_prefix_def u_def [symmetric] Let_def is_digit_def)
      ultimately show ?thesis by simp
    qed
  qed
qed

lemma parseFloat_cell_NaN_iff: "parseFloat (cell cols i) = NaN \<longleftrightarrow> \<not> cell_numeric cols i"
  by (auto simp: parseFloat_def cell_def cell_numeric_def parseFloat_string_NaN_iff)

lemma parseCSV_loop_filter:
  "parseCSV_loop ls iatCol stCol rows =
     rows @ map (row_of iatCol stCol) (filter (row_accepted iatCol stCol) ls)"
  by (induction ls arbitrary: rows)
    (simp_all add: Let_def row_of_def row_accepted_def isNaN_def parseFloat_cell_NaN_iff)

lemma split_lines_no_LF: "CHR 0x0A \<notin> set s \<Longrightarrow> split_lines s = [s]"
proof (induction s)
  case Nil
  then show ?case by simp
next
  case (Cons c s)
  have "hd s \<noteq> CHR 0x0A" if "s \<noteq> []"
  proof
    assume "hd s = CHR 0x0A"
    moreover have "hd s \<in> set s" using that by (rule hd_in_set)
    ultimately show False using Cons.prems by simp
  qed
  with Cons show ?case by auto
qed

lemma set_trim: "set (trim s) \<subseteq> set s"
proof -
  have "set (trim s) = set (dropWhile is_whitespace (rev (dropWhile is_whitespace s)))"
    by (simp add: trim_def)
  also have "\<dots> \<subseteq> set (rev (dropWhile is_whitespace s))"
    by (rule set_dropWhileD [THEN subsetI])
  also have "\<dots> \<subseteq> set s"
    by (auto dest: set_dropWhileD)
  finally show ?thesis .
qed

text \<open>
  C8, as stated, fails on cells that are not numbers but begin with one:
  \<^verbatim>\<open>parseFloat\<close> reads the longest numeric prefix and ignores the rest, so the rows
  \<^verbatim>\<open>1e2x,+3\<close>, \<^verbatim>\<open>0x10,1e\<close> and \<^verbatim>\<open>12abc,7 apples\<close> are accepted, as \<open>(100, 3)\<close>,
  \<open>(0, 1)\<close> and \<open>(12, 7)\<close>.
\<close>

theorem non_numeric_cells_accepted:
  "parseCSV (''iat,st'' @ [CHR 0x0A] @ ''1e2x,+3'' @ [CHR 0x0A] @ ''0x10,1e'' @ [CHR 0x0A] @
             ''12abc,7 apples'') =
     [\<lparr> DatasetRow.interArrivalTime = Fin 100, DatasetRow.serviceTime = Fin 3 \<rparr>,
      \<lparr> DatasetRow.interArrivalTime = Fin 0, DatasetRow.serviceTime = Fin 1 \<rparr>,
      \<lparr> DatasetRow.interArrivalTime = Fin 12, DatasetRow.serviceTime = Fin 7 \<rparr>]"
  by (simp add: csv_defs)

text \<open>
  C8 (amended). \<^verbatim>\<open>parseCSV\<close> returns, in order, the pairs of exactly the data lines
  in which both selected cells exist and begin, after white space and an optional sign,
  with a number (\<^verbatim>\<open>Infinity\<close>, a digit, or a dot and a digit; the characters after the
  literal are ignored), the inter-arrival time read is \<open>\<ge> 0\<close> and the service time read is
  \<open>> 0\<close>. Every other line is left out and nothing is raised (the function has no error
  result). Every row returned has an inter-arrival time \<open>\<ge> 0\<close> and a service time \<open>> 0\<close>,
  and a text of fewer than two lines, such as one without a line feed, gives the empty
  list.
\<close>

theorem parseCSV_rows:
  "parseCSV text =
     (let lines = split_lines (trim text) in
      if length lines < 2 then []
      else
        (case detect_columns (hd lines) of
           (iatCol, stCol) \<Rightarrow>
             map (row_of iatCol stCol) (filter (row_accepted iatCol stCol) (tl lines)))) \<and>
   (\<forall>r\<in>set (parseCSV text).
      DatasetRow.interArrivalTime r \<noteq> NaN \<and> DatasetRow.serviceTime r \<noteq> NaN \<and>
      num_ge (DatasetRow.interArrivalTime r) (Fin 0) \<and>
      num_gt (DatasetRow.serviceTime r) (Fin 0)) \<and>
   (CHR 0x0A \<notin> set text \<longrightarrow> parseCSV text = [])"
proof (intro conjI)
  show eq: "parseCSV text =
     (let lines = split_lines (trim text) in
      if length lines < 2 then []
      else
        (case detect_columns (hd lines) of
           (iatCol, stCol) \<Rightarrow>
             map (row_of iatCol stCol) (filter (row_accepted iatCol stCol) (tl lines))))"
    by (simp add: parseCSV_def Let_def parseCSV_loop_filter split: prod.splits)
  have acc: "DatasetRow.interArrivalTime (row_of i j l) \<noteq> NaN \<and>
             DatasetRow.serviceTime (row_of i j l) \<noteq> NaN \<and>
             num_ge (DatasetRow.interArrivalTime (row_of i j l)) (Fin 0) \<and>
             num_gt (DatasetRow.serviceTime (row_of i j l)) (Fin 0)"
    if "row_accepted i j l" for i j l
    using that by (simp add: row_of_def row_accepted_def parseFloat_cell_NaN_iff)
  show "\<forall>r\<in>set (parseCSV text).
      DatasetRow.interArrivalTime r \<noteq> NaN \<and> DatasetRow.serviceTime r \<noteq> NaN \<and>
      num_ge (DatasetRow.interArrivalTime r) (Fin 0) \<and>
      num_gt (DatasetRow.serviceTime r) (Fin 0)"
    unfolding eq using acc
    by (cases "detect_columns (hd (split_lines (trim text)))") (auto simp: Let_def)
  show "CHR 0x0A \<notin> set text \<longrightarrow> parseCSV text = []"
  proof
    assume "CHR 0x0A \<notin> set text"
    then have "CHR 0x0A \<notin> set (trim text)"
      using set_trim by blast
    then have "split_lines (trim text) = [trim text]"
      by (rule split_lines_no_LF)
    then show "parseCSV text = []"
      by (simp add: parseCSV_def)
  qed
qed

theorem parseCSV_rows_witness:
  "parseCSV (''iat,st'' @ [CHR 0x0A] @ ''1,2'' @ [CHR 0x0A] @ ''x,3'' @ [CHR 0x0A] @
             ''-1,2'' @ [CHR 0x0A] @ ''3,0'' @ [CHR 0x0A] @ ''4'' @ [CHR 0x0A] @
             ''2.5;1e1'' @ [CHR 0x0A] @ '' .5e1x,Infinity'') =
     [\<lparr> DatasetRow.interArrivalTime = Fin 1, DatasetRow.serviceTime = Fin 2 \<rparr>,
      \<lparr> DatasetRow.interArrivalTime = Fin (5 / 2), DatasetRow.serviceTime = Fin 10 \<rparr>,
      \<lparr> DatasetRow.interArrivalTime = Fin 5, DatasetRow.serviceTime = PosInf \<rparr>] \<and>
   map (row_accepted 0 1) [''1,2'', ''x,3'', ''-1,2'', ''3,0'', ''4'', ''2.5;1e1'',
                           '' .5e1x,Infinity''] =
     [True, False, False, False, False, True, True] \<and>
   parseCSV ''iat,service'' = []"
proof -
  let ?text = "''iat,st'' @ [CHR 0x0A] @ ''1,2'' @ [CHR 0x0A] @ ''x,3'' @ [CHR 0x0A] @
             ''-1,2'' @ [CHR 0x0A] @ ''3,0'' @ [CHR 0x0A] @ ''4'' @ [CHR 0x0A] @
             ''2.5;1e1'' @ [CHR 0x0A] @ '' .5e1x,Infinity''"
  have acc: "map (row_accepted 0 1) [''1,2'', ''x,3'', ''-1,2'', ''3,0'', ''4'', ''2.5;1e1'',
                           '' .5e1x,Infinity''] =
     [True, False, False, False, False, True, True]"
    by (simp add: csv_defs row_accepted_def cell_numeric_def numeric_prefix_def
        unsigned_part_def signed_inf_def)
  have "parseCSV ?text =
     (let lines = split_lines (trim ?text) in
      if length lines < 2 then []
      else
        (case detect_columns (hd lines) of
           (iatCol, stCol) \<Rightarrow>
             map (row_of iatCol stCol) (filter (row_accepted iatCol stCol) (tl lines))))"
    using parseCSV_rows [of ?text] by (rule conjunct1)
  also have "\<dots> = [\<lparr> DatasetRow.interArrivalTime = Fin 1, DatasetRow.serviceTime = Fin 2 \<rparr>,
      \<lparr> DatasetRow.interArrivalTime = Fin (5 / 2), DatasetRow.serviceTime = Fin 10 \<rparr>,
      \<lparr> DatasetRow.interArrivalTime = Fin 5, DatasetRow.serviceTime = PosInf \<rparr>]"
    by (simp add: csv_defs row_of_def row_accepted_def cell_numeric_def numeric_prefix_def
        unsigned_part_def signed_inf_def)
  finally have A: "parseCSV ?text =
     [\<lparr> DatasetRow.interArrivalTime = Fin 1, DatasetRow.serviceTime = Fin 2 \<rparr>,
      \<lparr> DatasetRow.interArrivalTime = Fin (5 / 2), DatasetRow.serviceTime = Fin 10 \<rparr>,
      \<lparr> DatasetRow.interArrivalTime = Fin 5, DatasetRow.serviceTime = PosInf \<rparr>]" .
  have "CHR 0x0A \<notin> set ''iat,service''" by simp
  with parseCSV_rows [of "''iat,service''"] have B: "parseCSV ''iat,service'' = []"
    by blast
  from A acc B show ?thesis by (intro conjI)
qed

end
